theory Spec2Isabelle
  imports Main "HOL-Library.Word" "HOL-Library.Sublist" "HOL-Library.Multiset"
begin

section \<open>JavaScript values\<close>

text \<open>
  The history engine of the clipboard indicator is JavaScript. The values it handles are
  modelled as follows: a string is its sequence of UTF-16 code units, a \<open>Uint8Array\<close> is a
  list of bytes, a number is an integer (the program only counts and stores bytes; numbers
  with a fraction are outside the model), an object is the list of its own properties.
\<close>

type_synonym byte = "8 word"
type_synonym jsstring = "16 word list"

definition lit :: "string \<Rightarrow> jsstring" where
  "lit s = map (\<lambda>c. of_nat (of_char c)) s"

datatype jsval =
    JUndefined
  | JNull
  | JBool bool
  | JNum int
  | JStr jsstring
  | JArr "jsval list"
  | JObj "(jsstring \<times> jsval) list"
  | JU8 "byte list"

datatype exn = TypeError

text \<open>\<open>!!v\<close>: the values that count as true in a condition.\<close>

fun truthy :: "jsval \<Rightarrow> bool" where
  "truthy JUndefined = False"
| "truthy JNull = False"
| "truthy (JBool b) = b"
| "truthy (JNum n) = (n \<noteq> 0)"
| "truthy (JStr s) = (s \<noteq> [])"
| "truthy (JArr xs) = True"
| "truthy (JObj kvs) = True"
| "truthy (JU8 bs) = True"

text \<open>\<open>a || b\<close>\<close>

definition js_or :: "jsval \<Rightarrow> jsval \<Rightarrow> jsval" where
  "js_or a b = (if truthy a then a else b)"

text \<open>
  \<open>v.k\<close> for a property name \<open>k\<close> that no built-in prototype defines (the program reads
  \<open>mimeType\<close>, \<open>mimetype\<close>, \<open>content\<close>, \<open>favorite\<close>, \<open>workspaces\<close> and \<open>activeWorkspace\<close>):
  reading a property of \<open>undefined\<close> or \<open>null\<close> throws, a primitive or an array has no
  such property.
\<close>

fun getProp :: "jsval \<Rightarrow> jsstring \<Rightarrow> exn + jsval" where
  "getProp JUndefined k = Inl TypeError"
| "getProp JNull k = Inl TypeError"
| "getProp (JObj kvs) k = Inr (case map_of kvs k of None \<Rightarrow> JUndefined | Some v \<Rightarrow> v)"
| "getProp v k = Inr JUndefined"

definition startsWith :: "jsstring \<Rightarrow> jsstring \<Rightarrow> bool" where
  "startsWith s p = (take (length p) s = p)"

subsection \<open>Numbers as text\<close>

definition digit_char :: "nat \<Rightarrow> 16 word" where
  "digit_char d = (if d < 10 then of_nat (48 + d) else of_nat (87 + d))"

text \<open>The digits of a natural number in base \<open>b\<close>, as \<open>Number.prototype.toString(b)\<close> writes them.\<close>

function digits :: "nat \<Rightarrow> nat \<Rightarrow> jsstring" where
  "digits b n = (if b < 2 \<or> n < b then [digit_char n] else digits b (n div b) @ [digit_char (n mod b)])"
  by pat_completeness auto
termination
  by (relation "measure (\<lambda>(b, n). n)") auto

definition toString :: "nat \<Rightarrow> int \<Rightarrow> jsstring" where
  "toString b i = (if i < 0 then lit ''-'' @ digits b (nat (- i)) else digits b (nat i))"

subsection \<open>UTF-8\<close>

text \<open>
  \<open>new TextEncoder().encode(s)\<close>: the code units are read as Unicode scalar values, a
  surrogate without its partner becoming U+FFFD, and each scalar value is written in
  UTF-8.
\<close>

definition is_high :: "16 word \<Rightarrow> bool" where
  "is_high u = (0xD800 \<le> unat u \<and> unat u \<le> 0xDBFF)"

definition is_low :: "16 word \<Rightarrow> bool" where
  "is_low u = (0xDC00 \<le> unat u \<and> unat u \<le> 0xDFFF)"

fun scalars :: "jsstring \<Rightarrow> nat list" where
  "scalars [] = []"
| "scalars [u] = (if is_high u \<or> is_low u then [0xFFFD] else [unat u])"
| "scalars (u # l # us) =
     (if is_high u then
        (if is_low l then (0x10000 + (unat u - 0xD800) * 0x400 + (unat l - 0xDC00)) # scalars us
         else 0xFFFD # scalars (l # us))
      else if is_low u then 0xFFFD # scalars (l # us)
      else unat u # scalars (l # us))"

definition utf8_of_scalar :: "nat \<Rightarrow> byte list" where
  "utf8_of_scalar c =
     (if c < 0x80 then [of_nat c]
      else if c < 0x800 then [of_nat (0xC0 + c div 0x40), of_nat (0x80 + c mod 0x40)]
      else if c < 0x10000 then
        [of_nat (0xE0 + c div 0x1000), of_nat (0x80 + (c div 0x40) mod 0x40), of_nat (0x80 + c mod 0x40)]
      else
        [of_nat (0xF0 + c div 0x40000), of_nat (0x80 + (c div 0x1000) mod 0x40),
         of_nat (0x80 + (c div 0x40) mod 0x40), of_nat (0x80 + c mod 0x40)])"

definition utf8_encode :: "jsstring \<Rightarrow> byte list" where
  "utf8_encode s = concat (map utf8_of_scalar (scalars s))"

text \<open>
  \<open>new TextDecoder().decode(bytes)\<close>: the UTF-8 decoder of the Encoding standard in its
  default, non-fatal mode. A lead byte announces how many continuation bytes follow and
  the range allowed for the next one; a byte outside that range ends the sequence with
  U+FFFD and is read again as the start of a new sequence. A leading byte order mark is
  dropped.
\<close>

datatype lead = Single nat | Lead nat nat nat nat | Invalid

definition classify :: "byte \<Rightarrow> lead" where
  "classify b = (let n = unat b in
     if n \<le> 0x7F then Single n
     else if 0xC2 \<le> n \<and> n \<le> 0xDF then Lead (n mod 0x20) 1 0x80 0xBF
     else if 0xE0 \<le> n \<and> n \<le> 0xEF then
       Lead (n mod 0x10) 2 (if n = 0xE0 then 0xA0 else 0x80) (if n = 0xED then 0x9F else 0xBF)
     else if 0xF0 \<le> n \<and> n \<le> 0xF4 then
       Lead (n mod 0x08) 3 (if n = 0xF0 then 0x90 else 0x80) (if n = 0xF4 then 0x8F else 0xBF)
     else Invalid)"

fun utf8_scan :: "(nat \<times> nat \<times> nat \<times> nat) option \<Rightarrow> byte list \<Rightarrow> nat list" where
  "utf8_scan None [] = []"
| "utf8_scan (Some st) [] = [0xFFFD]"
| "utf8_scan None (b # bs) =
     (case classify b of
        Single c \<Rightarrow> c # utf8_scan None bs
      | Lead cp n lo hi \<Rightarrow> utf8_scan (Some (cp, n, lo, hi)) bs
      | Invalid \<Rightarrow> 0xFFFD # utf8_scan None bs)"
| "utf8_scan (Some (cp, n, lo, hi)) (b # bs) =
     (if unat b < lo \<or> hi < unat b then
        0xFFFD # (case classify b of
            Single c \<Rightarrow> c # utf8_scan None bs
          | Lead cp' n' lo' hi' \<Rightarrow> utf8_scan (Some (cp', n', lo', hi')) bs
          | Invalid \<Rightarrow> 0xFFFD # utf8_scan None bs)
      else if n = 1 then (cp * 0x40 + unat b mod 0x40) # utf8_scan None bs
      else utf8_scan (Some (cp * 0x40 + unat b mod 0x40, n - 1, 0x80, 0xBF)) bs)"

definition utf16_of_scalar :: "nat \<Rightarrow> jsstring" where
  "utf16_of_scalar c =
     (if c < 0x10000 then [of_nat c]
      else [of_nat (0xD800 + (c - 0x10000) div 0x400), of_nat (0xDC00 + (c - 0x10000) mod 0x400)])"

definition strip_bom :: "nat list \<Rightarrow> nat list" where
  "strip_bom cs = (case cs of [] \<Rightarrow> [] | c # rest \<Rightarrow> if c = 0xFEFF then rest else cs)"

definition utf8_decode :: "byte list \<Rightarrow> jsstring" where
  "utf8_decode bs = concat (map utf16_of_scalar (strip_bom (utf8_scan None bs)))"

subsection \<open>Conversion to a number\<close>

text \<open>
  \<open>StringToNumber\<close>. White space and line terminators are trimmed from both ends. The
  empty string is 0. What is left is a binary, octal or hexadecimal integer with its
  prefix and without a sign, or an optional sign followed by \<open>Infinity\<close> or by a
  decimal literal: digits with an optional fraction and an optional exponent, at least
  one digit before the exponent. Anything else is not a number. A finite value is kept
  as the digits \<open>d\<close> and the power of ten \<open>x\<close> of its mathematical value \<open>d * 10 ^ x\<close>.
\<close>

datatype numeric = NaN | Infinity | Finite bool int int

definition isStrWhiteSpaceChar :: "16 word \<Rightarrow> bool" where
  "isStrWhiteSpaceChar c =
     (c \<in> {0x09, 0x0A, 0x0B, 0x0C, 0x0D, 0x20, 0xA0, 0x1680, 0x2028, 0x2029, 0x202F, 0x205F,
            0x3000, 0xFEFF} \<or> (0x2000 \<le> c \<and> c \<le> 0x200A))"

definition trimString :: "jsstring \<Rightarrow> jsstring" where
  "trimString s = rev (dropWhile isStrWhiteSpaceChar (rev (dropWhile isStrWhiteSpaceChar s)))"

definition digitOf :: "16 word \<Rightarrow> int option" where
  "digitOf c =
     (if 0x30 \<le> c \<and> c \<le> 0x39 then Some (uint c - 0x30)
      else if 0x61 \<le> c \<and> c \<le> 0x66 then Some (uint c - 0x61 + 10)
      else if 0x41 \<le> c \<and> c \<le> 0x46 then Some (uint c - 0x41 + 10)
      else None)"

fun digitsValue :: "int \<Rightarrow> int \<Rightarrow> jsstring \<Rightarrow> int option" where
  "digitsValue b acc [] = Some acc"
| "digitsValue b acc (c # cs) =
     (case digitOf c of
        None \<Rightarrow> None
      | Some d \<Rightarrow> if d < b then digitsValue b (acc * b + d) cs else None)"

definition parseDigits :: "int \<Rightarrow> jsstring \<Rightarrow> int option" where
  "parseDigits b s = (if s = [] then None else digitsValue b 0 s)"

definition nonDecimal :: "int \<Rightarrow> jsstring \<Rightarrow> numeric" where
  "nonDecimal b s = (case parseDigits b s of None \<Rightarrow> NaN | Some n \<Rightarrow> Finite False n 0)"

text \<open>The part before the first character with \<open>P\<close>, and the part after it when there is one.\<close>

definition splitAtFirst :: "('a \<Rightarrow> bool) \<Rightarrow> 'a list \<Rightarrow> 'a list \<times> 'a list option" where
  "splitAtFirst P s =
     (takeWhile (\<lambda>c. \<not> P c) s,
      case dropWhile (\<lambda>c. \<not> P c) s of [] \<Rightarrow> None | c # rest \<Rightarrow> Some rest)"

definition parseExponent :: "jsstring \<Rightarrow> int option" where
  "parseExponent s =
     (case s of
        [] \<Rightarrow> None
      | c # rest \<Rightarrow>
          if c = 0x2B then parseDigits 10 rest
          else if c = 0x2D then map_option uminus (parseDigits 10 rest)
          else parseDigits 10 s)"

definition parseUnsignedDecimal :: "bool \<Rightarrow> jsstring \<Rightarrow> numeric" where
  "parseUnsignedDecimal neg s =
     (if s = lit ''Infinity'' then Infinity
      else
        let (mantissa, exponentPart) = splitAtFirst (\<lambda>c. c = 0x65 \<or> c = 0x45) s;
            (integerPart, fractionPart) = splitAtFirst (\<lambda>c. c = 0x2E) mantissa;
            fraction = (case fractionPart of None \<Rightarrow> [] | Some f \<Rightarrow> f)
        in if integerPart = [] \<and> fraction = [] then NaN
           else
             (case digitsValue 10 0 (integerPart @ fraction) of
                None \<Rightarrow> NaN
              | Some d \<Rightarrow>
                  (case (case exponentPart of None \<Rightarrow> Some 0 | Some x \<Rightarrow> parseExponent x) of
                     None \<Rightarrow> NaN
                   | Some x \<Rightarrow> Finite neg d (x - int (length fraction)))))"

definition stringToNumber :: "jsstring \<Rightarrow> numeric" where
  "stringToNumber str =
     (case trimString str of
        [] \<Rightarrow> Finite False 0 0
      | c # rest \<Rightarrow>
          (case (if c = 0x30 then rest else []) of
             p # ds \<Rightarrow>
               if p = 0x78 \<or> p = 0x58 then nonDecimal 16 ds
               else if p = 0x6F \<or> p = 0x4F then nonDecimal 8 ds
               else if p = 0x62 \<or> p = 0x42 then nonDecimal 2 ds
               else parseUnsignedDecimal False (c # rest)
           | [] \<Rightarrow>
               if c = 0x2B then parseUnsignedDecimal False rest
               else if c = 0x2D then parseUnsignedDecimal True rest
               else parseUnsignedDecimal False (c # rest)))"

text \<open>
  A number of JavaScript is a double: the mathematical value \<open>num / den\<close> (\<open>num\<close> is
  not negative, \<open>den\<close> is positive) is rounded to the nearest value with 53
  significant bits, to the even one of two nearest, and is infinite from \<open>2 ^ 1024\<close>
  on. \<open>truncDouble\<close> is the integer part of the rounded value, \<open>None\<close> for infinity.
  \<open>bitlen\<close> is the number of binary digits, \<open>floorLog2\<close> the greatest \<open>j\<close> with
  \<open>2 ^ j \<le> num / den\<close>, \<open>divRoundEven\<close> the quotient rounded to the nearest integer,
  to the even one of two nearest.
\<close>

function bitlen :: "int \<Rightarrow> int" where
  "bitlen n = (if n \<le> 0 then 0 else 1 + bitlen (n div 2))"
  by pat_completeness auto
termination
  by (relation "measure nat") auto

declare bitlen.simps [simp del]

definition pow2le :: "int \<Rightarrow> int \<Rightarrow> int \<Rightarrow> bool" where
  "pow2le j num den = (if j \<ge> 0 then 2 ^ nat j * den \<le> num else den \<le> num * 2 ^ nat (- j))"

definition floorLog2 :: "int \<Rightarrow> int \<Rightarrow> int" where
  "floorLog2 num den =
     (let j = bitlen num - bitlen den in if pow2le j num den then j else j - 1)"

definition divRoundEven :: "int \<Rightarrow> int \<Rightarrow> int" where
  "divRoundEven a b =
     (let q = a div b; r = a mod b
      in if 2 * r < b then q else if 2 * r > b then q + 1 else if even q then q else q + 1)"

definition truncDouble :: "int \<Rightarrow> int \<Rightarrow> int option" where
  "truncDouble num den =
     (if num = 0 then Some 0
      else
        let e = max (floorLog2 num den - 52) (- 1074)
        in if e \<ge> 0 then
             (let m = divRoundEven num (den * 2 ^ nat e)
              in if m * 2 ^ nat e \<ge> 2 ^ 1024 then None else Some (m * 2 ^ nat e))
           else Some (divRoundEven (num * 2 ^ nat (- e)) den div 2 ^ nat (- e)))"

text \<open>\<open>ToUint8\<close>: not-a-number and the infinities give 0, the integer part counts modulo 256.\<close>

definition numericToUint8 :: "numeric \<Rightarrow> byte" where
  "numericToUint8 v =
     (case v of
        NaN \<Rightarrow> 0
      | Infinity \<Rightarrow> 0
      | Finite neg d x \<Rightarrow>
          (case (if x \<ge> 0 then truncDouble (d * 10 ^ nat x) 1 else truncDouble d (10 ^ nat (- x))) of
             None \<Rightarrow> 0
           | Some t \<Rightarrow> word_of_int (if neg then - t else t)))"

text \<open>
  The conversion of an object to a primitive value calls its \<open>valueOf\<close> and \<open>toString\<close>.
  An object of a parsed text has the inherited ones, which give \<open>[object Object]\<close>, unless
  it has a property \<open>toString\<close> of its own: that is no function, and the conversion
  throws a \<open>TypeError\<close>. An array is converted through \<open>join\<close>, which converts every
  element but \<open>null\<close> and \<open>undefined\<close> to a string.
\<close>

fun toPrimitiveThrows :: "jsval \<Rightarrow> bool" where
  "toPrimitiveThrows (JObj kvs) = (lit ''toString'' \<in> fst ` set kvs)"
| "toPrimitiveThrows (JArr xs) = list_ex toPrimitiveThrows xs"
| "toPrimitiveThrows v = False"

text \<open>
  An element of \<open>new Uint8Array(array)\<close>: \<open>ToNumber\<close>, then \<open>ToUint8\<close>. \<open>undefined\<close> is not
  a number, \<open>null\<close> is 0, a boolean is 0 or 1, a string is parsed. An array or a
  \<open>Uint8Array\<close> is the string of its elements joined with commas: the empty string
  for no element, no number for two or more, and for one element the string of that
  element, which is parsed to the same number as the element itself is converted to,
  but for a boolean, whose string is no number.
\<close>

fun toUint8 :: "jsval \<Rightarrow> exn + byte" where
  "toUint8 JUndefined = Inr 0"
| "toUint8 JNull = Inr 0"
| "toUint8 (JBool b) = Inr (if b then 1 else 0)"
| "toUint8 (JNum n) = Inr (word_of_int n)"
| "toUint8 (JStr s) = Inr (numericToUint8 (stringToNumber s))"
| "toUint8 (JU8 bs) = Inr (case bs of [b] \<Rightarrow> b | _ \<Rightarrow> 0)"
| "toUint8 (JObj kvs) = (if toPrimitiveThrows (JObj kvs) then Inl TypeError else Inr 0)"
| "toUint8 (JArr xs) =
     (if toPrimitiveThrows (JArr xs) then Inl TypeError
      else (case xs of
              [x] \<Rightarrow> (case x of JBool b \<Rightarrow> Inr 0 | _ \<Rightarrow> toUint8 x)
            | _ \<Rightarrow> Inr 0))"

text \<open>\<open>new Uint8Array(array)\<close>: the elements are converted in order.\<close>

fun new_Uint8Array :: "jsval list \<Rightarrow> exn + byte list" where
  "new_Uint8Array [] = Inr []"
| "new_Uint8Array (x # xs) =
     (case toUint8 x of
        Inl ex \<Rightarrow> Inl ex
      | Inr b \<Rightarrow> (case new_Uint8Array xs of Inl ex \<Rightarrow> Inl ex | Inr bs \<Rightarrow> Inr (b # bs)))"

section \<open>ClipboardEntry\<close>

record ClipboardEntry =
  mimetype :: jsstring
  bytes :: "byte list"
  favorite :: bool
  imageHash :: "jsstring option"

definition isText_static :: "jsstring \<Rightarrow> bool" where
  "isText_static m =
     (startsWith m (lit ''text/'') \<or> m = lit ''STRING'' \<or> m = lit ''UTF8_STRING'')"

definition isText :: "ClipboardEntry \<Rightarrow> bool" where
  "isText e = isText_static (mimetype e)"

definition isImage :: "ClipboardEntry \<Rightarrow> bool" where
  "isImage e = startsWith (mimetype e) (lit ''image/'')"

definition isFavorite :: "ClipboardEntry \<Rightarrow> bool" where
  "isFavorite e = favorite e"

text \<open>
  \<open>#generateHash\<close>: a fold over the first 1000 bytes. \<open>hash << 5\<close> works on the low 32 bits
  of \<open>hash\<close> and gives a signed 32-bit value; the subtraction and the addition are exact,
  the numbers staying far below \<open>2 ^ 53\<close>.
\<close>

definition hash_step :: "int \<Rightarrow> byte \<Rightarrow> int" where
  "hash_step h b = (sint (push_bit 5 (word_of_int h :: 32 word)) - h) + uint b"

definition generateHash :: "byte list \<Rightarrow> jsstring" where
  "generateHash bs = toString 36 (foldl hash_step 5381 (take 1000 bs))"

text \<open>
  The constructor. \<open>this.isImage()\<close> calls \<open>startsWith\<close> on the stored MIME type, which
  throws a \<open>TypeError\<close> when that is not a string.
\<close>

definition new_ClipboardEntry :: "jsval \<Rightarrow> jsval \<Rightarrow> jsval \<Rightarrow> exn + ClipboardEntry" where
  "new_ClipboardEntry mt bs fav =
     (let m = js_or mt (JStr (lit ''text/plain''))
      in case (case bs of
                 JStr s \<Rightarrow> Inr (utf8_encode s)
               | JArr xs \<Rightarrow> new_Uint8Array xs
               | JU8 u \<Rightarrow> Inr u
               | _ \<Rightarrow> Inr []) of
           Inl ex \<Rightarrow> Inl ex
         | Inr b \<Rightarrow>
             (case m of
                JStr ms \<Rightarrow> Inr \<lparr> mimetype = ms, bytes = b, favorite = truthy fav,
                                imageHash = (if startsWith ms (lit ''image/'') then Some (generateHash b) else None) \<rparr>
              | _ \<Rightarrow> Inl TypeError))"

definition getStringValue :: "ClipboardEntry \<Rightarrow> jsstring" where
  "getStringValue e =
     (if isImage e then lit ''[Image '' @ toString 10 (int (length (bytes e))) @ lit '']''
      else utf8_decode (bytes e))"

definition equals :: "ClipboardEntry \<Rightarrow> ClipboardEntry \<Rightarrow> bool" where
  "equals e otherEntry = (getStringValue e = getStringValue otherEntry)"

definition toJSON :: "ClipboardEntry \<Rightarrow> jsval" where
  "toJSON e = JObj
     [(lit ''mimeType'', JStr (mimetype e)),
      (lit ''content'', if isText e then JStr (getStringValue e) else JArr (map (\<lambda>b. JNum (uint b)) (bytes e))),
      (lit ''favorite'', JBool (favorite e)),
      (lit ''imageHash'', case imageHash e of None \<Rightarrow> JUndefined | Some h \<Rightarrow> JStr h)]"

section \<open>Registry: the files of the cache directory\<close>

text \<open>
  The cache directory holds \<open>workspaces.json\<close> and, for each workspace directory, the
  manifest \<open>clipboard.json\<close> and one file per image hash. A JSON file is modelled by
  what \<open>JSON.parse\<close> makes of its text: a value, or \<open>Corrupt\<close> when parsing throws.
  A directory is the list of the components of its absolute path; \<open>cacheDir\<close> is the
  cache directory of the registry. Input and output faults, symbolic links and the
  creation of directories are not modelled.
\<close>

datatype parsed = Corrupt | Json jsval

type_synonym path = "jsstring list"

record disk =
  cacheDir :: path
  config_file :: "parsed option"
  cache_files :: "path \<Rightarrow> parsed option"
  image_files :: "path \<times> jsstring \<Rightarrow> byte list option"

text \<open>
  \<open>JSON.parse(JSON.stringify(v))\<close>: a property whose value is \<open>undefined\<close> is left out,
  \<open>undefined\<close> inside an array is written as \<open>null\<close>, a \<open>Uint8Array\<close> is written as
  an object with its indices as keys. Strings and integers come back as they were.
\<close>

fun jsonify :: "jsval \<Rightarrow> jsval" where
  "jsonify (JArr xs) = JArr (map (\<lambda>x. if x = JUndefined then JNull else jsonify x) xs)"
| "jsonify (JObj kvs) =
     JObj (map (\<lambda>kv. (fst kv, jsonify (snd kv))) (filter (\<lambda>kv. snd kv \<noteq> JUndefined) kvs))"
| "jsonify (JU8 bs) = JObj (map (\<lambda>(i, b). (toString 10 (int i), JNum (uint b))) (enumerate 0 bs))"
| "jsonify v = v"

text \<open>
  \<open>_getWorkspaceDir\<close>: an undefined or empty workspace name stands for \<open>default\<close>.
  \<open>GLib.build_filenamev\<close> joins the cache directory and the name with a separator, and
  the file system reads the result component by component: an empty component and
  \<open>.\<close> stay in the directory, \<open>..\<close> goes to the parent (the root is its own parent).
  So the names \<open>A\<close>, \<open>./A\<close> and \<open>A/\<close> are one directory.
\<close>

fun splitSlash :: "jsstring \<Rightarrow> jsstring list" where
  "splitSlash [] = [[]]"
| "splitSlash (c # cs) =
     (if c = 0x2F then [] # splitSlash cs
      else (case splitSlash cs of [] \<Rightarrow> [[c]] | x # xs \<Rightarrow> (c # x) # xs))"

definition resolveStep :: "path \<Rightarrow> jsstring \<Rightarrow> path" where
  "resolveStep dir c =
     (if c = [] \<or> c = lit ''.'' then dir
      else if c = lit ''..'' then butlast dir
      else dir @ [c])"

definition resolvePath :: "jsstring list \<Rightarrow> path" where
  "resolvePath components = foldl resolveStep [] components"

definition getWorkspaceDir :: "disk \<Rightarrow> jsstring option \<Rightarrow> path" where
  "getWorkspaceDir d workspace =
     resolvePath (cacheDir d @ splitSlash
       (case workspace of
          None \<Rightarrow> lit ''default''
        | Some w \<Rightarrow> if w = [] then lit ''default'' else w))"

text \<open>One record of the manifest, as the callback of \<open>entries.map\<close> in \<open>read\<close> treats it.\<close>

definition read_entry :: "jsval \<Rightarrow> ClipboardEntry option" where
  "read_entry entry =
     (case getProp entry (lit ''content'') of
        Inl ex \<Rightarrow> None
      | Inr content \<Rightarrow>
          (case (case content of
                   JArr xs \<Rightarrow> (case new_Uint8Array xs of Inl ex \<Rightarrow> Inl ex | Inr u \<Rightarrow> Inr (JU8 u))
                 | _ \<Rightarrow> Inr content) of
             Inl ex \<Rightarrow> None
           | Inr bs \<Rightarrow>
             (case getProp entry (lit ''mimeType'') of
                Inl ex \<Rightarrow> None
              | Inr mt1 \<Rightarrow>
                (case getProp entry (lit ''mimetype'') of
                   Inl ex \<Rightarrow> None
                 | Inr mt2 \<Rightarrow>
                   (case getProp entry (lit ''favorite'') of
                      Inl ex \<Rightarrow> None
                    | Inr fav \<Rightarrow>
                      (case new_ClipboardEntry (js_or mt1 mt2) bs (js_or fav (JBool False)) of
                         Inl ex \<Rightarrow> None
                       | Inr e \<Rightarrow> Some e))))))"

definition registry_read :: "disk \<Rightarrow> jsstring option \<Rightarrow> ClipboardEntry list" where
  "registry_read d workspace =
     (case cache_files d (getWorkspaceDir d workspace) of
        None \<Rightarrow> []
      | Some Corrupt \<Rightarrow> []
      | Some (Json (JArr entries)) \<Rightarrow> List.map_filter read_entry entries
      | Some (Json v) \<Rightarrow> [])"

definition registry_write :: "disk \<Rightarrow> ClipboardEntry list \<Rightarrow> jsstring option \<Rightarrow> disk" where
  "registry_write d entries workspace =
     d\<lparr>cache_files := (cache_files d)
          (getWorkspaceDir d workspace \<mapsto> Json (jsonify (JArr (map toJSON entries))))\<rparr>"

text \<open>
  \<open>deleteEntryFile\<close>: unlinks the blob of an image entry. \<open>getImagePath\<close> gives no
  path for an entry without a hash (undefined or the empty string); the failing unlink
  is caught and nothing is deleted.
\<close>

definition deleteEntryFile :: "disk \<Rightarrow> ClipboardEntry \<Rightarrow> jsstring option \<Rightarrow> disk" where
  "deleteEntryFile d e workspace =
     (if \<not> isImage e then d
      else case imageHash e of
             None \<Rightarrow> d
           | Some h \<Rightarrow>
               if h = [] then d
               else d\<lparr>image_files := (image_files d)((getWorkspaceDir d workspace, h) := None)\<rparr>)"

subsection \<open>The workspaces configuration\<close>

record wsconfig =
  cfg_workspaces :: "jsval list"
  cfg_activeWorkspace :: jsval

definition saveWorkspacesConfig :: "disk \<Rightarrow> jsval list \<Rightarrow> jsval \<Rightarrow> disk" where
  "saveWorkspacesConfig d workspaces activeWorkspace =
     d\<lparr>config_file := Some (Json (jsonify (JObj
          [(lit ''workspaces'', JArr workspaces), (lit ''activeWorkspace'', activeWorkspace)])))\<rparr>"

definition defaultConfig :: wsconfig where
  "defaultConfig =
     \<lparr> cfg_workspaces = [JStr (lit ''Workspace1''), JStr (lit ''Workspace2''), JStr (lit ''Workspace3'')],
       cfg_activeWorkspace = JStr (lit ''Workspace1'') \<rparr>"

text \<open>
  \<open>Array.prototype.includes\<close> compares with SameValueZero: primitives by value, arrays
  and objects by identity, and a value parsed from the file is never the same object as
  an element of the list.
\<close>

fun is_primitive :: "jsval \<Rightarrow> bool" where
  "is_primitive (JArr xs) = False"
| "is_primitive (JObj kvs) = False"
| "is_primitive (JU8 bs) = False"
| "is_primitive v = True"

definition js_includes :: "jsval list \<Rightarrow> jsval \<Rightarrow> bool" where
  "js_includes xs v = (is_primitive v \<and> v \<in> set xs)"

text \<open>
  The \<open>forEach\<close> over the loaded list builds a directory path from every element; a
  falsy element stands for \<open>default\<close>, any other element that is not a string makes
  \<open>GLib.build_filenamev\<close> throw, and the \<open>catch\<close> returns the default.
\<close>

definition path_element_ok :: "jsval \<Rightarrow> bool" where
  "path_element_ok w = (\<not> truthy w \<or> (case w of JStr s \<Rightarrow> True | _ \<Rightarrow> False))"

definition loadWorkspacesConfig :: "disk \<Rightarrow> wsconfig \<times> disk" where
  "loadWorkspacesConfig d =
     (case config_file d of
        None \<Rightarrow>
          (defaultConfig,
           saveWorkspacesConfig d (cfg_workspaces defaultConfig) (cfg_activeWorkspace defaultConfig))
      | Some Corrupt \<Rightarrow> (defaultConfig, d)
      | Some (Json config) \<Rightarrow>
          if \<not> truthy config then (defaultConfig, d)
          else (case (getProp config (lit ''workspaces''), getProp config (lit ''activeWorkspace'')) of
                  (Inr (JArr ws), Inr active) \<Rightarrow>
                    if ws = [] \<or> \<not> truthy active then (defaultConfig, d)
                    else if \<not> list_all path_element_ok ws then (defaultConfig, d)
                    else if \<not> js_includes ws active
                      then (\<lparr> cfg_workspaces = ws,
                              cfg_activeWorkspace = (case ws of [] \<Rightarrow> JUndefined | w # rest \<Rightarrow> w) \<rparr>, d)
                      else (\<lparr> cfg_workspaces = ws, cfg_activeWorkspace = active \<rparr>, d)
                | _ \<Rightarrow> (defaultConfig, d)))"

section \<open>The indicator: the history of the active workspace\<close>

text \<open>
  \<open>clipItemsRadioGroup\<close> is the history, oldest first. A menu item is an object; the
  operations that receive one (\<open>_removeEntry\<close>, \<open>_moveItemFirst\<close>, \<open>_favoriteToggle\<close>,
  \<open>_selectMenuItem\<close>) are given its position in \<open>clipItemsRadioGroup\<close> here, which is
  what \<open>indexOf\<close> finds; every caller passes a member of the group. The settings are
  the global variables that \<open>_fetchSettings\<close> fills; the history size is a count. The
  system clipboard, the menu widgets and the notifications are outside the model, and
  an operation runs to its end before the next one starts.
\<close>

record menuItem =
  entry :: ClipboardEntry
  clipContents :: jsstring
  currentlySelected :: bool

record settings =
  MAX_REGISTRY_LENGTH :: nat
  CACHE_ONLY_FAVORITE :: bool
  MOVE_ITEM_FIRST :: bool
  PRIVATEMODE :: bool

record indicator =
  clipItemsRadioGroup :: "menuItem list"
  workspaces :: "jsstring list"
  activeWorkspace :: "jsstring option"
  registry :: disk
  refreshInProgress :: bool

definition updateCache :: "settings \<Rightarrow> indicator \<Rightarrow> indicator" where
  "updateCache s st =
     (let entries = filter (\<lambda>e. CACHE_ONLY_FAVORITE s = False \<or> isFavorite e)
                      (map entry (clipItemsRadioGroup st))
      in st\<lparr>registry := registry_write (registry st) entries (activeWorkspace st)\<rparr>)"

definition addToCache :: "settings \<Rightarrow> ClipboardEntry \<Rightarrow> indicator \<Rightarrow> indicator" where
  "addToCache s e st =
     (let entries = filter (\<lambda>e. CACHE_ONLY_FAVORITE s = False \<or> isFavorite e)
                      (map entry (clipItemsRadioGroup st)) @ [e]
      in st\<lparr>registry := registry_write (registry st) entries (activeWorkspace st)\<rparr>)"

text \<open>
  \<open>_onMenuItemSelected\<close>: the chosen item is marked when its \<open>clipContents\<close> is not the
  empty string, every other item of the group is unmarked.
\<close>

definition onMenuItemSelected :: "nat \<Rightarrow> indicator \<Rightarrow> indicator" where
  "onMenuItemSelected i st =
     (let items = clipItemsRadioGroup st in
      if i < length items then
        st\<lparr>clipItemsRadioGroup :=
             map (\<lambda>(j, other). other\<lparr>currentlySelected := (j = i \<and> clipContents (items ! i) \<noteq> [])\<rparr>)
                 (enumerate 0 items)\<rparr>
      else st)"

definition selectMenuItem :: "nat \<Rightarrow> indicator \<Rightarrow> indicator" where
  "selectMenuItem i st = onMenuItemSelected i st"

definition addEntry :: "ClipboardEntry \<Rightarrow> bool \<Rightarrow> indicator \<Rightarrow> indicator" where
  "addEntry e autoSelect st =
     (let menuItem = \<lparr> entry = e, clipContents = getStringValue e, currentlySelected = False \<rparr>;
          st1 = st\<lparr>clipItemsRadioGroup := clipItemsRadioGroup st @ [menuItem]\<rparr>
      in if autoSelect then selectMenuItem (length (clipItemsRadioGroup st)) st1 else st1)"

definition removeEntry :: "settings \<Rightarrow> nat \<Rightarrow> indicator \<Rightarrow> indicator" where
  "removeEntry s itemIdx st =
     (let items = clipItemsRadioGroup st in
      if itemIdx < length items then
        let e = entry (items ! itemIdx);
            st1 = st\<lparr>clipItemsRadioGroup := take itemIdx items @ drop (Suc itemIdx) items\<rparr>;
            st2 = (if isImage e
                   then st1\<lparr>registry := deleteEntryFile (registry st1) e (activeWorkspace st1)\<rparr>
                   else st1)
        in updateCache s st2
      else st)"

fun findIndex :: "('a \<Rightarrow> bool) \<Rightarrow> 'a list \<Rightarrow> nat option" where
  "findIndex P [] = None"
| "findIndex P (x # xs) = (if P x then Some 0 else map_option Suc (findIndex P xs))"

definition noFavorite :: "menuItem \<Rightarrow> bool" where
  "noFavorite item = (isFavorite (entry item) = False)"

lemma findIndex_Some_lt: "findIndex P xs = Some i \<Longrightarrow> i < length xs"
  by (induction xs arbitrary: i) (auto split: if_splits)

lemma findIndex_filter_remove:
  "findIndex P xs = Some i \<Longrightarrow>
   Suc (length (filter P (take i xs @ drop (Suc i) xs))) = length (filter P xs)"
  by (induction xs arbitrary: i) (auto split: if_splits)

lemma clipItems_updateCache [simp]:
  "clipItemsRadioGroup (updateCache s st) = clipItemsRadioGroup st"
  by (simp add: updateCache_def)

lemma clipItems_removeEntry:
  "clipItemsRadioGroup (removeEntry s i st) =
     (if i < length (clipItemsRadioGroup st)
      then take i (clipItemsRadioGroup st) @ drop (Suc i) (clipItemsRadioGroup st)
      else clipItemsRadioGroup st)"
  by (simp add: removeEntry_def Let_def)

text \<open>The \<open>while\<close> loop of \<open>_removeOldestEntries\<close>.\<close>

function removeWhileOver :: "settings \<Rightarrow> indicator \<Rightarrow> indicator" where
  "removeWhileOver s st =
     (if length (filter noFavorite (clipItemsRadioGroup st)) > MAX_REGISTRY_LENGTH s then
        (case findIndex noFavorite (clipItemsRadioGroup st) of
           None \<Rightarrow> st
         | Some oldestNoFavorite \<Rightarrow> removeWhileOver s (removeEntry s oldestNoFavorite st))
      else st)"
  by pat_completeness auto
termination
proof (relation "measure (\<lambda>(s, st). length (filter noFavorite (clipItemsRadioGroup st)))")
  show "wf (measure (\<lambda>(s, st). length (filter noFavorite (clipItemsRadioGroup st))))"
    by simp
next
  fix s :: settings and st :: indicator and i :: nat
  assume f: "findIndex noFavorite (clipItemsRadioGroup st) = Some i"
  from findIndex_Some_lt [OF f] findIndex_filter_remove [OF f]
  show "((s, removeEntry s i st), (s, st))
          \<in> measure (\<lambda>(s, st). length (filter noFavorite (clipItemsRadioGroup st)))"
    by (simp add: clipItems_removeEntry)
qed

definition removeOldestEntries :: "settings \<Rightarrow> indicator \<Rightarrow> indicator" where
  "removeOldestEntries s st =
     (if MAX_REGISTRY_LENGTH s = 0 then st
      else
        let origSize = length (filter noFavorite (clipItemsRadioGroup st));
            st1 = removeWhileOver s st
        in if length (filter noFavorite (clipItemsRadioGroup st1)) < origSize
           then updateCache s st1 else st1)"

definition moveItemFirst :: "settings \<Rightarrow> nat \<Rightarrow> indicator \<Rightarrow> indicator" where
  "moveItemFirst s i st =
     (let items = clipItemsRadioGroup st in
      if i < length items then
        let item = items ! i;
            st1 = removeEntry s i st;
            st2 = addEntry (entry item) (currentlySelected item) st1
        in updateCache s st2
      else st)"

definition favoriteToggle :: "settings \<Rightarrow> nat \<Rightarrow> indicator \<Rightarrow> indicator" where
  "favoriteToggle s i st =
     (let items = clipItemsRadioGroup st in
      if i < length items then
        let e = entry (items ! i);
            st1 = st\<lparr>clipItemsRadioGroup :=
                      items[i := (items ! i)\<lparr>entry := e\<lparr>favorite := (if isFavorite e then False else True)\<rparr>\<rparr>]\<rparr>
        in updateCache s (moveItemFirst s i st1)
      else st)"

text \<open>
  The part of \<open>_refreshIndicator\<close> that handles a captured entry: the existing item
  with the same text is chosen again (and moved when the setting asks for it), or the
  new entry is added.
\<close>

definition addOrPromote :: "settings \<Rightarrow> ClipboardEntry \<Rightarrow> indicator \<Rightarrow> indicator" where
  "addOrPromote s result st =
     (case findIndex (\<lambda>menuItem. equals (entry menuItem) result) (clipItemsRadioGroup st) of
        Some existingItem \<Rightarrow>
          let st1 = selectMenuItem existingItem st in
          if \<not> isFavorite (entry (clipItemsRadioGroup st1 ! existingItem)) \<and> MOVE_ITEM_FIRST s
          then moveItemFirst s existingItem st1
          else st1
      | None \<Rightarrow>
          if MAX_REGISTRY_LENGTH s = 0 \<or>
             length (filter (\<lambda>item. \<not> isFavorite (entry item)) (clipItemsRadioGroup st))
               < MAX_REGISTRY_LENGTH s
          then addEntry result True (addToCache s result st)
          else addEntry result True (addToCache s result (removeOldestEntries s st)))"

definition refreshIndicator :: "settings \<Rightarrow> ClipboardEntry option \<Rightarrow> indicator \<Rightarrow> indicator" where
  "refreshIndicator s clipboardContent st =
     (if PRIVATEMODE s then st
      else if refreshInProgress st then st
      else
        let st1 = st\<lparr>refreshInProgress := True\<rparr>;
            st2 = (case clipboardContent of
                     None \<Rightarrow> st1
                   | Some result \<Rightarrow> addOrPromote s result st1)
        in st2\<lparr>refreshInProgress := False\<rparr>)"

subsection \<open>Switching the workspace\<close>

definition saveWorkspacesConfig_indicator :: "indicator \<Rightarrow> indicator" where
  "saveWorkspacesConfig_indicator st =
     st\<lparr>registry := saveWorkspacesConfig (registry st) (map JStr (workspaces st))
                       (case activeWorkspace st of None \<Rightarrow> JUndefined | Some a \<Rightarrow> JStr a)\<rparr>"

definition getCache :: "indicator \<Rightarrow> ClipboardEntry list" where
  "getCache st = registry_read (registry st) (activeWorkspace st)"

definition loadHistory :: "ClipboardEntry list \<Rightarrow> indicator \<Rightarrow> indicator" where
  "loadHistory clipHistory st =
     selectMenuItem (length clipHistory - 1) (foldl (\<lambda>acc e. addEntry e False acc) st clipHistory)"

text \<open>
  \<open>_switchWorkspace\<close> runs in segments that are separated by waits: the first
  segment settles the target (the first configured workspace stands in for an unknown
  name), writes the history of the active workspace and empties the menu; after a wait
  of 100 ms the second makes the target the active workspace and writes the
  configuration; after another 100 ms the third reads the manifest of the target and,
  when that gave no entry, reads it once more after 200 ms. The callers do not wait for
  the switch and nothing guards the waits: a capture or another switch can run between
  two segments. Each segment is a function of its own here.
\<close>

definition switchTarget :: "jsstring \<Rightarrow> indicator \<Rightarrow> jsstring option" where
  "switchTarget name st =
     (if name \<in> set (workspaces st) then Some name
      else (case workspaces st of [] \<Rightarrow> None | w # rest \<Rightarrow> Some w))"

definition switchPersist :: "settings \<Rightarrow> indicator \<Rightarrow> indicator" where
  "switchPersist s st = (updateCache s st)\<lparr>clipItemsRadioGroup := []\<rparr>"

definition switchActivate :: "jsstring option \<Rightarrow> indicator \<Rightarrow> indicator" where
  "switchActivate name st = saveWorkspacesConfig_indicator (st\<lparr>activeWorkspace := name\<rparr>)"

definition switchRetry :: "indicator \<Rightarrow> indicator" where
  "switchRetry st =
     (let retryHistory = getCache st
      in if retryHistory \<noteq> [] then loadHistory retryHistory st else st)"

definition switchLoad :: "indicator \<Rightarrow> indicator" where
  "switchLoad st =
     (let clipHistory = getCache st
      in if clipHistory = [] then switchRetry st else loadHistory clipHistory st)"

text \<open>A switch during whose waits nothing else runs.\<close>

definition switchWorkspace :: "settings \<Rightarrow> jsstring \<Rightarrow> indicator \<Rightarrow> indicator" where
  "switchWorkspace s name st =
     switchLoad (switchActivate (switchTarget name st) (switchPersist s st))"

section \<open>The stored entries\<close>

text \<open>
  The entries of the history, oldest first, and the number of them that are not
  favorites. The lemmas of this section say what each operation does to this list.
\<close>

definition storedEntries :: "indicator \<Rightarrow> ClipboardEntry list" where
  "storedEntries st = map entry (clipItemsRadioGroup st)"

declare removeWhileOver.simps [simp del]

lemma noFavorite_eq: "noFavorite = (\<lambda>item. \<not> favorite (entry item))"
  by (rule ext) (simp add: noFavorite_def isFavorite_def)

definition nonFavoriteCount :: "indicator \<Rightarrow> nat" where
  "nonFavoriteCount st = length (filter (\<lambda>e. \<not> favorite e) (storedEntries st))"

lemma clipItems_addToCache [simp]:
  "clipItemsRadioGroup (addToCache s e st) = clipItemsRadioGroup st"
  by (simp add: addToCache_def)

lemma storedEntries_updateCache [simp]: "storedEntries (updateCache s st) = storedEntries st"
  by (simp add: storedEntries_def)

lemma storedEntries_addToCache [simp]: "storedEntries (addToCache s e st) = storedEntries st"
  by (simp add: storedEntries_def)

lemma map_entry_select:
  "map (entry \<circ> (\<lambda>(j, other). other\<lparr>currentlySelected := f j\<rparr>)) (enumerate n xs) = map entry xs"
  by (induction xs arbitrary: n) simp_all

lemma storedEntries_onMenuItemSelected [simp]:
  "storedEntries (onMenuItemSelected i st) = storedEntries st"
  by (simp add: storedEntries_def onMenuItemSelected_def Let_def map_entry_select)

lemma storedEntries_selectMenuItem [simp]:
  "storedEntries (selectMenuItem i st) = storedEntries st"
  by (simp add: selectMenuItem_def)

lemma length_clipItems_onMenuItemSelected [simp]:
  "length (clipItemsRadioGroup (onMenuItemSelected i st)) = length (clipItemsRadioGroup st)"
  by (simp add: onMenuItemSelected_def Let_def)

lemma storedEntries_addEntry [simp]:
  "storedEntries (addEntry e b st) = storedEntries st @ [e]"
  by (simp add: addEntry_def Let_def) (simp add: storedEntries_def)

lemma storedEntries_removeEntry:
  "storedEntries (removeEntry s i st) =
     (if i < length (storedEntries st)
      then take i (storedEntries st) @ drop (Suc i) (storedEntries st)
      else storedEntries st)"
  by (simp add: storedEntries_def clipItems_removeEntry take_map drop_map)

lemma length_storedEntries [simp]: "length (storedEntries st) = length (clipItemsRadioGroup st)"
  by (simp add: storedEntries_def)

lemma storedEntries_moveItemFirst:
  "storedEntries (moveItemFirst s i st) =
     (if i < length (storedEntries st)
      then take i (storedEntries st) @ drop (Suc i) (storedEntries st) @ [storedEntries st ! i]
      else storedEntries st)"
  by (simp add: moveItemFirst_def Let_def storedEntries_removeEntry) (simp add: storedEntries_def)

lemma findIndex_map: "findIndex P (map f xs) = findIndex (\<lambda>x. P (f x)) xs"
  by (induction xs) simp_all

lemma findIndex_None: "findIndex P xs = None \<longleftrightarrow> (\<forall>x \<in> set xs. \<not> P x)"
  by (induction xs) auto

lemma findIndex_Some_nth: "findIndex P xs = Some i \<Longrightarrow> P (xs ! i)"
  by (induction xs arbitrary: i) (auto split: if_splits)

lemma filter_noFavorite:
  "length (filter noFavorite (clipItemsRadioGroup st)) = nonFavoriteCount st"
  by (simp add: nonFavoriteCount_def storedEntries_def noFavorite_eq filter_map o_def)

lemma filter_not_isFavorite:
  "length (filter (\<lambda>item. \<not> isFavorite (entry item)) (clipItemsRadioGroup st)) = nonFavoriteCount st"
  by (simp add: nonFavoriteCount_def storedEntries_def isFavorite_def filter_map o_def)

lemma removeWhileOver_within:
  "nonFavoriteCount st \<le> MAX_REGISTRY_LENGTH s \<Longrightarrow> removeWhileOver s st = st"
  by (subst removeWhileOver.simps) (simp add: filter_noFavorite)

lemma removeOldestEntries_within:
  "nonFavoriteCount st \<le> MAX_REGISTRY_LENGTH s \<Longrightarrow> removeOldestEntries s st = st"
  by (simp add: removeOldestEntries_def removeWhileOver_within Let_def)

lemma storedEntries_addOrPromote:
  "storedEntries (addOrPromote s r st) =
     (case findIndex (\<lambda>e. equals e r) (storedEntries st) of
        Some i \<Rightarrow>
          if \<not> favorite (storedEntries st ! i) \<and> MOVE_ITEM_FIRST s
          then take i (storedEntries st) @ drop (Suc i) (storedEntries st) @ [storedEntries st ! i]
          else storedEntries st
      | None \<Rightarrow>
          if MAX_REGISTRY_LENGTH s = 0 \<or> nonFavoriteCount st < MAX_REGISTRY_LENGTH s
          then storedEntries st @ [r]
          else storedEntries (removeOldestEntries s st) @ [r])"
proof (cases "findIndex (\<lambda>menuItem. equals (entry menuItem) r) (clipItemsRadioGroup st)")
  case None
  then show ?thesis
    by (simp add: addOrPromote_def storedEntries_def [of st] findIndex_map filter_not_isFavorite)
next
  case (Some i)
  then have lt: "i < length (clipItemsRadioGroup st)"
    by (rule findIndex_Some_lt)
  have sel: "entry (clipItemsRadioGroup (selectMenuItem i st) ! i) = storedEntries st ! i"
    using lt storedEntries_selectMenuItem [of i st]
    by (metis length_storedEntries nth_map storedEntries_def)
  from Some lt show ?thesis
    by (simp add: addOrPromote_def Let_def findIndex_map storedEntries_def [of st] sel
        storedEntries_moveItemFirst isFavorite_def)
qed


section \<open>The identity of clipboard contents\<close>

text \<open>
  The text projection in the words of the specification: the decoded text of a text
  entry, and for an image a marker made of the word \<open>Image\<close> and the number of bytes.
\<close>

definition textProjection :: "ClipboardEntry \<Rightarrow> jsstring" where
  "textProjection e =
     (if startsWith (mimetype e) (lit ''image/'')
      then lit ''[Image '' @ toString 10 (int (length (bytes e))) @ lit '']''
      else utf8_decode (bytes e))"

text \<open>
  Claim C7. \<open>equals\<close>, the relation that deduplication uses, holds exactly when the text
  projections of the two entries are equal; in particular two images with the same
  number of bytes are the same clipboard content, whatever the bytes are.
\<close>

theorem equals_iff_textProjection:
  "(equals a b \<longleftrightarrow> textProjection a = textProjection b) \<and>
   (isImage a \<and> isImage b \<and> length (bytes a) = length (bytes b) \<longrightarrow> equals a b)"
  by (simp add: equals_def getStringValue_def textProjection_def isImage_def)

theorem equals_iff_textProjection_witness:
  "isImage \<lparr>mimetype = lit ''image/png'', bytes = [1, 2, 3], favorite = False, imageHash = None\<rparr> \<and>
   isImage \<lparr>mimetype = lit ''image/gif'', bytes = [4, 5, 6], favorite = True, imageHash = None\<rparr> \<and>
   equals \<lparr>mimetype = lit ''image/png'', bytes = [1, 2, 3], favorite = False, imageHash = None\<rparr>
          \<lparr>mimetype = lit ''image/gif'', bytes = [4, 5, 6], favorite = True, imageHash = None\<rparr>"
proof -
  let ?a = "\<lparr>mimetype = lit ''image/png'', bytes = [1, 2, 3], favorite = False, imageHash = None\<rparr>"
  let ?b = "\<lparr>mimetype = lit ''image/gif'', bytes = [4, 5, 6], favorite = True, imageHash = None\<rparr>"
  have img: "isImage ?a" "isImage ?b"
    by (simp_all add: isImage_def startsWith_def lit_def)
  have len: "length (bytes ?a) = length (bytes ?b)"
    by simp
  from equals_iff_textProjection [of ?a ?b] img len have "equals ?a ?b"
    by blast
  with img show ?thesis
    by blast
qed

section \<open>Construction of an entry\<close>

text \<open>
  The conversion of an array throws exactly when an element is an object with a
  property \<open>toString\<close> of its own, or an array that holds one at some depth; an array
  of integers is converted to these integers modulo 256.
\<close>

lemma toUint8_examples:
  "toUint8 (JStr (lit ''65'')) = Inr 65"
  "toUint8 (JStr (lit '' 0x41 '')) = Inr 65"
  "toUint8 (JStr (lit ''6.5e1'')) = Inr 65"
  "toUint8 (JStr (lit ''-1.5'')) = Inr 255"
  "toUint8 (JStr (lit ''255.99999999999999999'')) = Inr 0"
  "toUint8 (JStr (lit ''a'')) = Inr 0"
  "toUint8 (JArr [JNum 66]) = Inr 66"
  "toUint8 (JArr [JNum 1, JNum 2]) = Inr 0"
  "toUint8 (JArr [JObj [(lit ''toString'', JNum 1)]]) = Inl TypeError"
  by code_simp+

lemma toUint8_throws: "(toUint8 v = Inl TypeError) = toPrimitiveThrows v"
proof (induction v rule: toUint8.induct)
  case (8 xs)
  show ?case
  proof (cases "toPrimitiveThrows (JArr xs)")
    case True
    then show ?thesis
      by simp
  next
    case False
    show ?thesis
    proof (cases xs)
      case Nil
      with False show ?thesis
        by simp
    next
      case (Cons x rest)
      show ?thesis
      proof (cases rest)
        case Nil
        from False Cons Nil have nt: "\<not> toPrimitiveThrows x"
          by simp
        from False Cons Nil
        have unfolded: "toUint8 (JArr xs) = (case x of JBool b \<Rightarrow> Inr 0 | _ \<Rightarrow> toUint8 x)"
          by simp
        have ih: "(toUint8 x = Inl TypeError) = toPrimitiveThrows x"
          using 8 False Cons Nil
          by (cases x) (simp_all del: toUint8.simps(8) toPrimitiveThrows.simps(2))
        from nt ih False show ?thesis
          by (cases x) (simp_all add: unfolded del: toUint8.simps(8) toPrimitiveThrows.simps(2))
      next
        case (Cons y more)
        with False \<open>xs = x # rest\<close> show ?thesis
          by simp
      qed
    qed
  qed
qed simp_all

lemma toUint8_cases: "toUint8 v = Inl TypeError \<or> (\<exists>b. toUint8 v = Inr b)"
  by (cases "toUint8 v") (simp_all, metis exn.exhaust)

lemma new_Uint8Array_throws: "(new_Uint8Array xs = Inl TypeError) = list_ex toPrimitiveThrows xs"
proof (induction xs)
  case Nil
  show ?case by simp
next
  case (Cons x xs)
  from toUint8_cases [of x] toUint8_throws [of x] Cons show ?case
    by (auto split: sum.splits)
qed

lemma new_Uint8Array_cases: "new_Uint8Array xs = Inl TypeError \<or> (\<exists>bs. new_Uint8Array xs = Inr bs)"
  by (cases "new_Uint8Array xs") (simp_all, metis exn.exhaust)

lemma new_Uint8Array_JNum: "new_Uint8Array (map JNum ns) = Inr (map word_of_int ns)"
  by (induction ns) simp_all

text \<open>
  Claim C10 as stated (construction never fails, for every input) does not hold: a MIME
  type that is truthy and not a string, here the number 1, makes the constructor throw.
\<close>

theorem new_ClipboardEntry_number_mimetype_throws:
  "new_ClipboardEntry (JNum 1) (JStr (lit ''a'')) (JBool False) = Inl TypeError"
  by (simp add: new_ClipboardEntry_def js_or_def)

text \<open>
  Nor does it hold for every payload: the conversion of an array whose element is an
  object with a property \<open>toString\<close> throws.
\<close>

lemma new_ClipboardEntry_object_element_throws:
  "new_ClipboardEntry (JStr (lit ''text/plain'')) (JArr [JObj [(lit ''toString'', JNum 1)]]) (JBool False)
     = Inl TypeError"
  by (simp add: new_ClipboardEntry_def js_or_def)

text \<open>
  Claim C10, amended. When the MIME type is falsy or a string and the payload is not an
  array with an element whose conversion throws, construction succeeds and normalizes:
  a falsy MIME type becomes \<open>text/plain\<close>, a string payload is stored as its UTF-8
  encoding, an array as its converted elements, which for an array of integers are
  these integers modulo 256, a \<open>Uint8Array\<close> as it is, anything that is not a string
  or an array as no bytes; the favorite flag is the truth value of the argument. A MIME
  type that is truthy and not a string makes the constructor throw a \<open>TypeError\<close>, and
  so does an array with an element whose conversion throws.
\<close>

theorem new_ClipboardEntry_normalizes:
  "((\<not> truthy mt \<or> (\<exists>m. mt = JStr m)) \<and> (\<forall>xs. payload = JArr xs \<longrightarrow> \<not> list_ex toPrimitiveThrows xs) \<longrightarrow>
     (\<exists>e. new_ClipboardEntry mt payload fav = Inr e \<and>
        mimetype e = (case mt of JStr m \<Rightarrow> if m = [] then lit ''text/plain'' else m
                      | _ \<Rightarrow> lit ''text/plain'') \<and>
        (\<forall>str. payload = JStr str \<longrightarrow> bytes e = utf8_encode str) \<and>
        (\<forall>xs. payload = JArr xs \<longrightarrow> new_Uint8Array xs = Inr (bytes e)) \<and>
        (\<forall>ns. payload = JArr (map JNum ns) \<longrightarrow> bytes e = map word_of_int ns) \<and>
        (\<forall>u. payload = JU8 u \<longrightarrow> bytes e = u) \<and>
        ((\<forall>str. payload \<noteq> JStr str) \<and> (\<forall>xs. payload \<noteq> JArr xs) \<and> (\<forall>u. payload \<noteq> JU8 u) \<longrightarrow>
           bytes e = []) \<and>
        favorite e = truthy fav \<and>
        imageHash e = (if isImage e then Some (generateHash (bytes e)) else None))) \<and>
   (truthy mt \<and> (\<forall>m. mt \<noteq> JStr m) \<longrightarrow> new_ClipboardEntry mt payload fav = Inl TypeError) \<and>
   ((\<exists>xs. payload = JArr xs \<and> list_ex toPrimitiveThrows xs) \<longrightarrow>
      new_ClipboardEntry mt payload fav = Inl TypeError)"
proof (cases "\<exists>xs. payload = JArr xs")
  case False
  then show ?thesis
    by (cases mt; cases payload) (auto simp add: new_ClipboardEntry_def js_or_def isImage_def Let_def)
next
  case True
  then obtain xs where p: "payload = JArr xs"
    by blast
  show ?thesis
  proof (cases "list_ex toPrimitiveThrows xs")
    case True
    then have "new_Uint8Array xs = Inl TypeError"
      by (simp add: new_Uint8Array_throws)
    with p True show ?thesis
      by (simp add: new_ClipboardEntry_def Let_def)
  next
    case False
    with new_Uint8Array_cases [of xs] obtain bs where bs: "new_Uint8Array xs = Inr bs"
      by (auto simp add: new_Uint8Array_throws)
    have "ns = ns'" if "map JNum ns = map JNum ns'" for ns ns' :: "int list"
      using that by (simp add: inj_map_eq_map inj_def)
    with p False bs new_Uint8Array_JNum show ?thesis
      by (cases mt) (auto simp add: new_ClipboardEntry_def js_or_def isImage_def Let_def)
  qed
qed

theorem new_ClipboardEntry_normalizes_witness:
  "(\<exists>e. new_ClipboardEntry JUndefined (JArr (map JNum [1, 258])) (JNum 1) = Inr e \<and>
        mimetype e = lit ''text/plain'' \<and> bytes e = [1, 2] \<and> favorite e = True \<and>
        imageHash e = None) \<and>
   (\<exists>e. new_ClipboardEntry (JStr (lit ''image/png'')) (JStr (lit ''a'')) JNull = Inr e \<and>
        mimetype e = lit ''image/png'' \<and> bytes e = [0x61] \<and> favorite e = False) \<and>
   (\<exists>e. new_ClipboardEntry JNull (JU8 [7]) (JBool True) = Inr e \<and> bytes e = [7]) \<and>
   (\<exists>e. new_ClipboardEntry (JStr []) (JNum 5) (JBool True) = Inr e \<and> bytes e = []) \<and>
   new_ClipboardEntry (JBool True) (JU8 [1]) JNull = Inl TypeError \<and>
   new_ClipboardEntry JNull (JArr [JNum 1, JArr [JObj [(lit ''toString'', JNull)]]]) JNull = Inl TypeError"
proof -
  have enc: "utf8_encode (lit ''a'') = [0x61]"
    by (simp add: utf8_encode_def lit_def is_high_def is_low_def utf8_of_scalar_def)
  have inj: "\<And>ns. (map JNum [1, 258] = map JNum ns) = ([1, 258] = ns)"
    by (rule inj_map_eq_map) (simp add: inj_def)
  from new_ClipboardEntry_normalizes [of JUndefined "JArr (map JNum [1, 258])" "JNum 1"]
  have "\<exists>e. new_ClipboardEntry JUndefined (JArr (map JNum [1, 258])) (JNum 1) = Inr e \<and>
        mimetype e = lit ''text/plain'' \<and> bytes e = map word_of_int [1, 258] \<and> favorite e = True \<and>
        imageHash e = (if isImage e then Some (generateHash (bytes e)) else None)"
    by (simp add: inj del: list.map) (auto simp add: list_ex_iff)
  then have a: "\<exists>e. new_ClipboardEntry JUndefined (JArr (map JNum [1, 258])) (JNum 1) = Inr e \<and>
        mimetype e = lit ''text/plain'' \<and> bytes e = [1, 2] \<and> favorite e = True \<and>
        imageHash e = None"
    by (auto simp add: isImage_def startsWith_def lit_def)
  from new_ClipboardEntry_normalizes [of "JStr (lit ''image/png'')" "JStr (lit ''a'')" JNull] enc
  have b: "\<exists>e. new_ClipboardEntry (JStr (lit ''image/png'')) (JStr (lit ''a'')) JNull = Inr e \<and>
        mimetype e = lit ''image/png'' \<and> bytes e = [0x61] \<and> favorite e = False"
    by (auto simp add: lit_def)
  from new_ClipboardEntry_normalizes [of JNull "JU8 [7]" "JBool True"]
  have c: "\<exists>e. new_ClipboardEntry JNull (JU8 [7]) (JBool True) = Inr e \<and> bytes e = [7]"
    by auto
  from new_ClipboardEntry_normalizes [of "JStr []" "JNum 5" "JBool True"]
  have d: "\<exists>e. new_ClipboardEntry (JStr []) (JNum 5) (JBool True) = Inr e \<and> bytes e = []"
    by auto
  from new_ClipboardEntry_normalizes [of "JBool True" "JU8 [1]" JNull]
  have e: "new_ClipboardEntry (JBool True) (JU8 [1]) JNull = Inl TypeError"
    by simp
  from new_ClipboardEntry_normalizes
         [of JNull "JArr [JNum 1, JArr [JObj [(lit ''toString'', JNull)]]]" JNull]
  have f: "new_ClipboardEntry JNull (JArr [JNum 1, JArr [JObj [(lit ''toString'', JNull)]]]) JNull
      = Inl TypeError"
    by simp
  from a b c d e f show ?thesis
    by blast
qed

section \<open>The history size\<close>

text \<open>
  Sample inputs: the entry that capturing the plain text \<open>str\<close> (ASCII) builds, a disk
  with no files whose cache directory is \<open>/home/user/.cache/clipboard-indicator\<close>, and an
  indicator with an empty history.
\<close>

definition textEntry :: "string \<Rightarrow> ClipboardEntry" where
  "textEntry str =
     \<lparr>mimetype = lit ''text/plain'', bytes = map of_char str, favorite = False, imageHash = None\<rparr>"

definition emptyDisk :: disk where
  "emptyDisk =
     \<lparr>cacheDir = [lit ''home'', lit ''user'', lit ''.cache'', lit ''clipboard-indicator''],
      config_file = None, cache_files = (\<lambda>w. None), image_files = (\<lambda>p. None)\<rparr>"

definition emptyIndicator :: indicator where
  "emptyIndicator =
     \<lparr>clipItemsRadioGroup = [], workspaces = [lit ''W1'', lit ''W2''],
      activeWorkspace = Some (lit ''W1''), registry = emptyDisk, refreshInProgress = False\<rparr>"

lemma storedEntries_emptyIndicator [simp]: "storedEntries emptyIndicator = []"
  by (simp add: storedEntries_def emptyIndicator_def)

lemma getStringValue_textEntry_abc:
  "getStringValue (textEntry ''a'') = lit ''a''"
  "getStringValue (textEntry ''b'') = lit ''b''"
  "getStringValue (textEntry ''c'') = lit ''c''"
  by (simp_all add: getStringValue_def textEntry_def isImage_def startsWith_def lit_def
      utf8_decode_def classify_def strip_bom_def utf16_of_scalar_def)

text \<open>
  Claim C1 says that the number of entries that are not favorites never exceeds the
  history size. With a history size of 2 and an empty history, capturing the three
  texts \<open>a\<close>, \<open>b\<close>, \<open>c\<close> leaves three such entries: when the count has reached the
  size, \<open>_refreshIndicator\<close> calls \<open>_removeOldestEntries\<close>, whose loop removes only
  while the count is greater than the size.
\<close>

theorem nonFavoriteCount_exceeds_history_size:
  "nonFavoriteCount
     (addOrPromote \<lparr>MAX_REGISTRY_LENGTH = 2, CACHE_ONLY_FAVORITE = False, MOVE_ITEM_FIRST = False, PRIVATEMODE = False\<rparr> (textEntry ''c'')
     (addOrPromote \<lparr>MAX_REGISTRY_LENGTH = 2, CACHE_ONLY_FAVORITE = False, MOVE_ITEM_FIRST = False, PRIVATEMODE = False\<rparr> (textEntry ''b'')
     (addOrPromote \<lparr>MAX_REGISTRY_LENGTH = 2, CACHE_ONLY_FAVORITE = False, MOVE_ITEM_FIRST = False, PRIVATEMODE = False\<rparr> (textEntry ''a'')
        emptyIndicator)))
   = 3"
  by (simp add: storedEntries_addOrPromote nonFavoriteCount_def removeOldestEntries_within
      equals_def getStringValue_textEntry_abc lit_def)
     (simp add: textEntry_def)

text \<open>
  Claim C3 says that after \<open>a\<close>, \<open>b\<close>, \<open>c\<close> with a history size of 2 the entry \<open>a\<close> has
  been evicted and \<open>b\<close>, \<open>c\<close> remain. The code keeps all three.
\<close>

theorem oldest_entry_not_evicted_at_limit:
  "storedEntries
     (addOrPromote \<lparr>MAX_REGISTRY_LENGTH = 2, CACHE_ONLY_FAVORITE = False, MOVE_ITEM_FIRST = False, PRIVATEMODE = False\<rparr> (textEntry ''c'')
     (addOrPromote \<lparr>MAX_REGISTRY_LENGTH = 2, CACHE_ONLY_FAVORITE = False, MOVE_ITEM_FIRST = False, PRIVATEMODE = False\<rparr> (textEntry ''b'')
     (addOrPromote \<lparr>MAX_REGISTRY_LENGTH = 2, CACHE_ONLY_FAVORITE = False, MOVE_ITEM_FIRST = False, PRIVATEMODE = False\<rparr> (textEntry ''a'')
        emptyIndicator)))
   = [textEntry ''a'', textEntry ''b'', textEntry ''c'']"
  by (simp add: storedEntries_addOrPromote nonFavoriteCount_def removeOldestEntries_within
      equals_def getStringValue_textEntry_abc lit_def)

lemma textEntry_constructed:
  "new_ClipboardEntry (JStr (lit ''text/plain'')) (JU8 (map of_char str)) (JBool False) = Inr (textEntry str)"
  by (simp add: new_ClipboardEntry_def js_or_def textEntry_def lit_def startsWith_def)

section \<open>What the operations write\<close>

lemma registry_onMenuItemSelected [simp]: "registry (onMenuItemSelected i st) = registry st"
  by (simp add: onMenuItemSelected_def Let_def)

lemma registry_selectMenuItem [simp]: "registry (selectMenuItem i st) = registry st"
  by (simp add: selectMenuItem_def)

lemma registry_addEntry [simp]: "registry (addEntry e b st) = registry st"
  by (simp add: addEntry_def Let_def)

lemma activeWorkspace_onMenuItemSelected [simp]: "activeWorkspace (onMenuItemSelected i st) = activeWorkspace st"
  by (simp add: onMenuItemSelected_def Let_def)

lemma activeWorkspace_selectMenuItem [simp]: "activeWorkspace (selectMenuItem i st) = activeWorkspace st"
  by (simp add: selectMenuItem_def)

lemma activeWorkspace_addEntry [simp]: "activeWorkspace (addEntry e b st) = activeWorkspace st"
  by (simp add: addEntry_def Let_def)

lemma registry_addToCache:
  "registry (addToCache s e st) =
     registry_write (registry st)
       (filter (\<lambda>e. CACHE_ONLY_FAVORITE s = False \<or> isFavorite e) (storedEntries st) @ [e])
       (activeWorkspace st)"
  by (simp add: addToCache_def storedEntries_def)

lemma registry_updateCache:
  "registry (updateCache s st) =
     registry_write (registry st)
       (filter (\<lambda>e. CACHE_ONLY_FAVORITE s = False \<or> isFavorite e) (storedEntries st))
       (activeWorkspace st)"
  by (simp add: updateCache_def storedEntries_def)


lemma updateCache_only_favorites:
  "CACHE_ONLY_FAVORITE s \<Longrightarrow>
   registry (updateCache s st) =
     registry_write (registry st) (filter isFavorite (storedEntries st)) (activeWorkspace st)"
  by (simp add: registry_updateCache)

text \<open>
  Claim C2 says that with \<open>CACHE_ONLY_FAVORITE\<close> set no entry that is not a favorite
  is written to the manifest. \<open>_updateCache\<close> filters all it writes, but \<open>#addToCache\<close>
  appends the captured entry after the filter: capturing the text \<open>a\<close> into an empty
  history writes a manifest with this one record, whose favorite flag is false.
\<close>

theorem addToCache_writes_non_favorite:
  "cache_files (registry
     (addOrPromote \<lparr>MAX_REGISTRY_LENGTH = 2, CACHE_ONLY_FAVORITE = True, MOVE_ITEM_FIRST = False, PRIVATEMODE = False\<rparr>
        (textEntry ''a'') emptyIndicator))
     [lit ''home'', lit ''user'', lit ''.cache'', lit ''clipboard-indicator'', lit ''W1'']
   = Some (Json (JArr [JObj [(lit ''mimeType'', JStr (lit ''text/plain'')),
                             (lit ''content'', JStr (lit ''a'')),
                             (lit ''favorite'', JBool False)]]))"
proof -
  have "registry
          (addOrPromote \<lparr>MAX_REGISTRY_LENGTH = 2, CACHE_ONLY_FAVORITE = True, MOVE_ITEM_FIRST = False, PRIVATEMODE = False\<rparr>
             (textEntry ''a'') emptyIndicator)
        = registry_write emptyDisk [textEntry ''a''] (Some (lit ''W1''))"
    by (simp add: addOrPromote_def emptyIndicator_def registry_addToCache storedEntries_def)
  then show ?thesis
    by (simp add: registry_write_def getWorkspaceDir_def resolvePath_def resolveStep_def
        emptyDisk_def lit_def toJSON_def textEntry_def
        isText_def isText_static_def startsWith_def getStringValue_def isImage_def
        utf8_decode_def classify_def strip_bom_def utf16_of_scalar_def)
qed

section \<open>Writing and reading back the manifest\<close>

text \<open>
  What \<open>read\<close> makes of an entry that \<open>write\<close> has stored: text comes back as the
  UTF-8 encoding of the decoded text, everything else as it was.
\<close>

definition reread :: "ClipboardEntry \<Rightarrow> ClipboardEntry" where
  "reread e =
     \<lparr> mimetype = mimetype e,
       bytes = (if isText e then utf8_encode (utf8_decode (bytes e)) else bytes e),
       favorite = favorite e,
       imageHash = (if isImage e then Some (generateHash (bytes e)) else None) \<rparr>"

lemma startsWith_hd: "startsWith m p \<Longrightarrow> p \<noteq> [] \<Longrightarrow> m \<noteq> [] \<and> hd m = hd p"
  by (cases m; cases p) (auto simp add: startsWith_def)

lemma isText_not_isImage: "isText e \<Longrightarrow> \<not> isImage e"
proof
  assume t: "isText e" and i: "isImage e"
  from i have "hd (mimetype e) = hd (lit ''image/'')"
    using startsWith_hd [of "mimetype e" "lit ''image/''"] by (simp add: isImage_def lit_def)
  moreover from t have "hd (mimetype e) = hd (lit ''text/'') \<or> mimetype e = lit ''STRING'' \<or> mimetype e = lit ''UTF8_STRING''"
    using startsWith_hd [of "mimetype e" "lit ''text/''"] by (auto simp add: isText_def isText_static_def lit_def)
  ultimately show False
    by (auto simp add: lit_def)
qed

lemma new_Uint8Array_uint:
  "new_Uint8Array (map ((\<lambda>x. if x = JUndefined then JNull else jsonify x) \<circ> (\<lambda>b. JNum (uint b))) bs) = Inr bs"
  by (induction bs) simp_all

lemma read_entry_toJSON:
  assumes "mimetype e \<noteq> []"
  shows "read_entry (jsonify (toJSON e)) = Some (reread e)"
proof (cases "isText e")
  case True
  with assms isText_not_isImage [OF True] show ?thesis
    by (cases "imageHash e")
       (simp_all add: toJSON_def read_entry_def lit_def js_or_def new_ClipboardEntry_def reread_def
          getStringValue_def isImage_def)
next
  case False
  with assms show ?thesis
    by (cases "imageHash e")
       (simp_all add: toJSON_def read_entry_def lit_def js_or_def new_ClipboardEntry_def reread_def
          isImage_def new_Uint8Array_uint Let_def)
qed

lemma toJSON_not_undefined: "toJSON e \<noteq> JUndefined"
  by (simp add: toJSON_def)

lemma map_filter_read_entry:
  "\<forall>e \<in> set es. mimetype e \<noteq> [] \<Longrightarrow>
   List.map_filter read_entry (map ((\<lambda>x. if x = JUndefined then JNull else jsonify x) \<circ> toJSON) es) = map reread es"
  by (induction es) (simp_all add: List.map_filter_simps toJSON_not_undefined read_entry_toJSON)

lemma getWorkspaceDir_update [simp]:
  "getWorkspaceDir (d\<lparr>cache_files := c\<rparr>) w = getWorkspaceDir d w"
  "getWorkspaceDir (d\<lparr>config_file := f\<rparr>) w = getWorkspaceDir d w"
  "getWorkspaceDir (d\<lparr>image_files := i\<rparr>) w = getWorkspaceDir d w"
  by (simp_all add: getWorkspaceDir_def)

lemma getWorkspaceDir_registry_write [simp]:
  "getWorkspaceDir (registry_write d es w') w = getWorkspaceDir d w"
  by (simp add: registry_write_def)

lemma getWorkspaceDir_saveWorkspacesConfig [simp]:
  "getWorkspaceDir (saveWorkspacesConfig d ws a) w = getWorkspaceDir d w"
  by (simp add: saveWorkspacesConfig_def)

lemma registry_read_write_same:
  "\<forall>e \<in> set es. mimetype e \<noteq> [] \<Longrightarrow>
   registry_read (registry_write d es w) w = map reread es"
  by (simp add: registry_read_def registry_write_def map_filter_read_entry)

lemma registry_read_write_other:
  "getWorkspaceDir d w' \<noteq> getWorkspaceDir d w \<Longrightarrow>
   registry_read (registry_write d es w) w' = registry_read d w'"
  by (simp add: registry_read_def registry_write_def)

subsection \<open>Payloads that decoding and encoding leave unchanged\<close>

definition is_ascii :: "byte list \<Rightarrow> bool" where
  "is_ascii bs = (\<forall>b \<in> set bs. unat b < 0x80)"

lemma utf8_scan_ascii: "\<forall>b \<in> set bs. unat b < 0x80 \<Longrightarrow> utf8_scan None bs = map unat bs"
  by (induction bs) (simp_all add: classify_def)

lemma strip_bom_ascii: "\<forall>b \<in> set bs. unat b < 0x80 \<Longrightarrow> strip_bom (map unat bs) = map unat bs"
  by (cases bs) (auto simp add: strip_bom_def)

lemma utf16_ascii:
  "\<forall>b \<in> set bs. unat b < 0x80 \<Longrightarrow> concat (map utf16_of_scalar (map unat (bs :: byte list))) = map ucast bs"
  by (induction bs) (simp_all add: utf16_of_scalar_def)

lemma utf8_decode_ascii: "\<forall>b \<in> set bs. unat b < 0x80 \<Longrightarrow> utf8_decode bs = map ucast bs"
  unfolding utf8_decode_def
  by (simp only: utf8_scan_ascii strip_bom_ascii utf16_ascii)

lemma unat_ucast_byte: "unat (ucast (b :: byte) :: 16 word) = unat b"
proof -
  have "unat b < 2 ^ LENGTH(8)"
    by (rule unsigned_less)
  then have "unat b < 2 ^ 16"
    by simp
  then show ?thesis
    by (simp add: unsigned_ucast_eq take_bit_nat_eq_self)
qed

lemma scalars_ascii:
  "\<forall>b \<in> set bs. unat b < 0x80 \<Longrightarrow> scalars (map ucast (bs :: byte list)) = map unat bs"
proof (induction bs)
  case Nil
  then show ?case by simp
next
  case (Cons b bs)
  then have b: "unat b < 0x80" and rest: "\<forall>b \<in> set bs. unat b < 0x80"
    by simp_all
  from b have nh: "\<not> is_high (ucast b)" and nl: "\<not> is_low (ucast b)"
    by (simp_all add: is_high_def is_low_def unat_ucast_byte)
  show ?case
  proof (cases bs)
    case Nil
    with nh nl show ?thesis by (simp add: unat_ucast_byte)
  next
    case (Cons c cs)
    with nh nl Cons.IH [OF rest] show ?thesis by (simp add: unat_ucast_byte)
  qed
qed

lemma utf8_of_scalars_ascii:
  "\<forall>b \<in> set bs. unat b < 0x80 \<Longrightarrow> concat (map utf8_of_scalar (map unat bs)) = bs"
  by (induction bs) (simp_all add: utf8_of_scalar_def)

lemma utf8_encode_decode_ascii: "is_ascii bs \<Longrightarrow> utf8_encode (utf8_decode bs) = bs"
  unfolding is_ascii_def utf8_encode_def
  by (simp only: utf8_decode_ascii scalars_ascii utf8_of_scalars_ascii)

text \<open>
  Claim C5 as stated (the payload bytes of every entry are read back as written) does not
  hold: a text entry whose payload is the single byte \<open>0xFF\<close>, which is not UTF-8, is
  written as the string U+FFFD and read back as the three bytes of that character.
\<close>

theorem write_read_changes_invalid_utf8:
  "registry_read (registry_write emptyDisk
       [\<lparr>mimetype = lit ''text/plain'', bytes = [0xFF], favorite = False, imageHash = None\<rparr>]
       (Some (lit ''W1''))) (Some (lit ''W1''))
   = [\<lparr>mimetype = lit ''text/plain'', bytes = [0xEF, 0xBF, 0xBD], favorite = False, imageHash = None\<rparr>]"
proof -
  have "isText \<lparr>mimetype = lit ''text/plain'', bytes = [0xFF], favorite = False, imageHash = None\<rparr>"
    by (simp add: isText_def isText_static_def startsWith_def lit_def)
  moreover have "\<not> isImage \<lparr>mimetype = lit ''text/plain'', bytes = [0xFF], favorite = False, imageHash = None\<rparr>"
    by (simp add: isImage_def startsWith_def lit_def)
  moreover have "utf8_encode (utf8_decode [0xFF]) = [0xEF, 0xBF, 0xBD]"
    by (simp add: utf8_encode_def utf8_decode_def classify_def strip_bom_def utf16_of_scalar_def
        is_high_def is_low_def utf8_of_scalar_def)
  ultimately show ?thesis
    by (simp add: registry_read_write_same reread_def lit_def)
qed

text \<open>
  Claim C5, amended. For entries as the constructor builds them (the MIME type is not the
  empty string), writing a list of entries and reading the workspace back gives the
  entries in the same order, with the same MIME types and favorite flags; the payload of
  an entry that is not text comes back byte for byte, the payload of a text entry comes
  back as the UTF-8 encoding of its decoded text. So all payloads come back byte for
  byte when every text payload is unchanged by decoding and encoding again.
\<close>

theorem write_read_roundtrip:
  assumes "\<forall>e \<in> set es. mimetype e \<noteq> []"
  shows "map mimetype (registry_read (registry_write d es w) w) = map mimetype es \<and>
         map favorite (registry_read (registry_write d es w) w) = map favorite es \<and>
         map bytes (registry_read (registry_write d es w) w) =
           map (\<lambda>e. if isText e then utf8_encode (utf8_decode (bytes e)) else bytes e) es \<and>
         ((\<forall>e \<in> set es. isText e \<longrightarrow> utf8_encode (utf8_decode (bytes e)) = bytes e) \<longrightarrow>
            map bytes (registry_read (registry_write d es w) w) = map bytes es)"
proof -
  have r: "registry_read (registry_write d es w) w = map reread es"
    using assms by (rule registry_read_write_same)
  have "map mimetype (map reread es) = map mimetype es"
    by (simp add: reread_def)
  moreover have "map favorite (map reread es) = map favorite es"
    by (simp add: reread_def)
  moreover have "map bytes (map reread es) =
      map (\<lambda>e. if isText e then utf8_encode (utf8_decode (bytes e)) else bytes e) es"
    by (simp add: reread_def)
  moreover have "(\<forall>e \<in> set es. isText e \<longrightarrow> utf8_encode (utf8_decode (bytes e)) = bytes e) \<longrightarrow>
      map bytes (map reread es) = map bytes es"
    by (simp add: reread_def)
  ultimately show ?thesis
    by (simp only: r)
qed

theorem write_read_roundtrip_witness:
  "map mimetype (registry_read (registry_write emptyDisk
       [textEntry ''a'',
        \<lparr>mimetype = lit ''image/png'', bytes = [1, 2, 255], favorite = True, imageHash = None\<rparr>]
       (Some (lit ''W1''))) (Some (lit ''W1'')))
     = [lit ''text/plain'', lit ''image/png''] \<and>
   map favorite (registry_read (registry_write emptyDisk
       [textEntry ''a'',
        \<lparr>mimetype = lit ''image/png'', bytes = [1, 2, 255], favorite = True, imageHash = None\<rparr>]
       (Some (lit ''W1''))) (Some (lit ''W1'')))
     = [False, True] \<and>
   map bytes (registry_read (registry_write emptyDisk
       [textEntry ''a'',
        \<lparr>mimetype = lit ''image/png'', bytes = [1, 2, 255], favorite = True, imageHash = None\<rparr>]
       (Some (lit ''W1''))) (Some (lit ''W1'')))
     = [[0x61], [1, 2, 255]]"
proof -
  let ?img = "\<lparr>mimetype = lit ''image/png'', bytes = [1, 2, 255], favorite = True, imageHash = None\<rparr>"
  have wf: "\<forall>e \<in> set [textEntry ''a'', ?img]. mimetype e \<noteq> []"
    by (simp add: textEntry_def lit_def)
  have "is_ascii (bytes (textEntry ''a''))"
    by (simp add: is_ascii_def textEntry_def)
  then have "utf8_encode (utf8_decode (bytes (textEntry ''a''))) = bytes (textEntry ''a'')"
    by (rule utf8_encode_decode_ascii)
  moreover have "\<not> isText ?img"
    by (simp add: isText_def isText_static_def startsWith_def lit_def)
  ultimately have stable:
    "\<forall>e \<in> set [textEntry ''a'', ?img]. isText e \<longrightarrow> utf8_encode (utf8_decode (bytes e)) = bytes e"
    by simp
  from write_read_roundtrip [OF wf, of emptyDisk "Some (lit ''W1'')"] stable
  show ?thesis
    by (simp add: textEntry_def)
qed

section \<open>Loading the workspaces configuration\<close>

text \<open>
  Claim C4 as stated does not hold. A configuration whose active workspace is not in
  its list is not replaced by the default: the list is kept and its first workspace
  becomes the active one. And a configuration with an empty list gives the default,
  but the file on disk stays as it was: the default is not written.
\<close>

theorem loadWorkspacesConfig_dangling_or_invalid:
  "loadWorkspacesConfig (emptyDisk\<lparr>config_file := Some (Json (JObj
       [(lit ''workspaces'', JArr [JStr (lit ''A'')]), (lit ''activeWorkspace'', JStr (lit ''B''))]))\<rparr>)
     = (\<lparr>cfg_workspaces = [JStr (lit ''A'')], cfg_activeWorkspace = JStr (lit ''A'')\<rparr>,
        emptyDisk\<lparr>config_file := Some (Json (JObj
          [(lit ''workspaces'', JArr [JStr (lit ''A'')]), (lit ''activeWorkspace'', JStr (lit ''B''))]))\<rparr>) \<and>
   \<lparr>cfg_workspaces = [JStr (lit ''A'')], cfg_activeWorkspace = JStr (lit ''A'')\<rparr> \<noteq> defaultConfig \<and>
   loadWorkspacesConfig (emptyDisk\<lparr>config_file := Some (Json (JObj
       [(lit ''workspaces'', JArr []), (lit ''activeWorkspace'', JStr (lit ''A''))]))\<rparr>)
     = (defaultConfig,
        emptyDisk\<lparr>config_file := Some (Json (JObj
          [(lit ''workspaces'', JArr []), (lit ''activeWorkspace'', JStr (lit ''A''))]))\<rparr>)"
  by (simp add: loadWorkspacesConfig_def emptyDisk_def lit_def js_includes_def path_element_ok_def defaultConfig_def)

text \<open>
  Claim C4, amended. When the configuration file is missing, the default of three
  workspaces with the first one active is returned and written to disk. When the file
  cannot be parsed, or its value is falsy, has no workspace list or an empty one, or has
  no active workspace, the default is returned and nothing is written. When the active
  workspace is set but is not in the list (of names), the list is kept, its first
  workspace becomes active, and nothing is written.
\<close>

theorem loadWorkspacesConfig_cases:
  "(config_file d = None \<longrightarrow>
      loadWorkspacesConfig d =
        (defaultConfig,
         d\<lparr>config_file := Some (Json (JObj
             [(lit ''workspaces'', JArr (cfg_workspaces defaultConfig)),
              (lit ''activeWorkspace'', cfg_activeWorkspace defaultConfig)]))\<rparr>)) \<and>
   (config_file d = Some Corrupt \<longrightarrow> loadWorkspacesConfig d = (defaultConfig, d)) \<and>
   (config_file d = Some (Json config) \<and>
      (\<not> truthy config \<or>
       (\<forall>ws. getProp config (lit ''workspaces'') \<noteq> Inr (JArr ws)) \<or>
       getProp config (lit ''workspaces'') = Inr (JArr []) \<or>
       (\<exists>a. getProp config (lit ''activeWorkspace'') = Inr a \<and> \<not> truthy a)) \<longrightarrow>
      loadWorkspacesConfig d = (defaultConfig, d)) \<and>
   (config_file d = Some (Json config) \<and> truthy config \<and>
      getProp config (lit ''workspaces'') = Inr (JArr (w # ws)) \<and>
      getProp config (lit ''activeWorkspace'') = Inr a \<and> truthy a \<and>
      list_all path_element_ok (w # ws) \<and> \<not> js_includes (w # ws) a \<longrightarrow>
      loadWorkspacesConfig d = (\<lparr>cfg_workspaces = w # ws, cfg_activeWorkspace = w\<rparr>, d))"
proof (intro conjI impI)
  assume "config_file d = None"
  then show "loadWorkspacesConfig d =
        (defaultConfig,
         d\<lparr>config_file := Some (Json (JObj
             [(lit ''workspaces'', JArr (cfg_workspaces defaultConfig)),
              (lit ''activeWorkspace'', cfg_activeWorkspace defaultConfig)]))\<rparr>)"
    by (simp add: loadWorkspacesConfig_def saveWorkspacesConfig_def defaultConfig_def)
next
  assume "config_file d = Some Corrupt"
  then show "loadWorkspacesConfig d = (defaultConfig, d)"
    by (simp add: loadWorkspacesConfig_def)
next
  assume a: "config_file d = Some (Json config) \<and>
      (\<not> truthy config \<or>
       (\<forall>ws. getProp config (lit ''workspaces'') \<noteq> Inr (JArr ws)) \<or>
       getProp config (lit ''workspaces'') = Inr (JArr []) \<or>
       (\<exists>a. getProp config (lit ''activeWorkspace'') = Inr a \<and> \<not> truthy a))"
  then show "loadWorkspacesConfig d = (defaultConfig, d)"
    by (auto simp add: loadWorkspacesConfig_def split: sum.splits jsval.splits)
next
  assume "config_file d = Some (Json config) \<and> truthy config \<and>
      getProp config (lit ''workspaces'') = Inr (JArr (w # ws)) \<and>
      getProp config (lit ''activeWorkspace'') = Inr a \<and> truthy a \<and>
      list_all path_element_ok (w # ws) \<and> \<not> js_includes (w # ws) a"
  then show "loadWorkspacesConfig d = (\<lparr>cfg_workspaces = w # ws, cfg_activeWorkspace = w\<rparr>, d)"
    by (simp add: loadWorkspacesConfig_def)
qed

theorem loadWorkspacesConfig_cases_witness:
  "loadWorkspacesConfig emptyDisk =
     (defaultConfig,
      emptyDisk\<lparr>config_file := Some (Json (JObj
         [(lit ''workspaces'',
           JArr [JStr (lit ''Workspace1''), JStr (lit ''Workspace2''), JStr (lit ''Workspace3'')]),
          (lit ''activeWorkspace'', JStr (lit ''Workspace1''))]))\<rparr>) \<and>
   loadWorkspacesConfig (emptyDisk\<lparr>config_file := Some Corrupt\<rparr>) =
     (defaultConfig, emptyDisk\<lparr>config_file := Some Corrupt\<rparr>) \<and>
   loadWorkspacesConfig (emptyDisk\<lparr>config_file := Some (Json (JObj
       [(lit ''workspaces'', JArr [JStr (lit ''A'')])]))\<rparr>) =
     (defaultConfig, emptyDisk\<lparr>config_file := Some (Json (JObj
       [(lit ''workspaces'', JArr [JStr (lit ''A'')])]))\<rparr>) \<and>
   loadWorkspacesConfig (emptyDisk\<lparr>config_file := Some (Json (JObj
       [(lit ''workspaces'', JArr [JStr (lit ''A''), JStr (lit ''C'')]),
        (lit ''activeWorkspace'', JStr (lit ''B''))]))\<rparr>) =
     (\<lparr>cfg_workspaces = [JStr (lit ''A''), JStr (lit ''C'')], cfg_activeWorkspace = JStr (lit ''A'')\<rparr>,
      emptyDisk\<lparr>config_file := Some (Json (JObj
       [(lit ''workspaces'', JArr [JStr (lit ''A''), JStr (lit ''C'')]),
        (lit ''activeWorkspace'', JStr (lit ''B''))]))\<rparr>)"
proof (intro conjI)
  have "config_file emptyDisk = None"
    by (simp add: emptyDisk_def)
  with loadWorkspacesConfig_cases [of emptyDisk]
  show "loadWorkspacesConfig emptyDisk =
     (defaultConfig,
      emptyDisk\<lparr>config_file := Some (Json (JObj
         [(lit ''workspaces'',
           JArr [JStr (lit ''Workspace1''), JStr (lit ''Workspace2''), JStr (lit ''Workspace3'')]),
          (lit ''activeWorkspace'', JStr (lit ''Workspace1''))]))\<rparr>)"
    by (simp add: defaultConfig_def)
next
  from loadWorkspacesConfig_cases [of "emptyDisk\<lparr>config_file := Some Corrupt\<rparr>"]
  show "loadWorkspacesConfig (emptyDisk\<lparr>config_file := Some Corrupt\<rparr>) =
     (defaultConfig, emptyDisk\<lparr>config_file := Some Corrupt\<rparr>)"
    by simp
next
  let ?config = "JObj [(lit ''workspaces'', JArr [JStr (lit ''A'')])]"
  have "getProp ?config (lit ''activeWorkspace'') = Inr JUndefined \<and> \<not> truthy JUndefined"
    by (simp add: lit_def)
  with loadWorkspacesConfig_cases [of "emptyDisk\<lparr>config_file := Some (Json ?config)\<rparr>" ?config]
  show "loadWorkspacesConfig (emptyDisk\<lparr>config_file := Some (Json ?config)\<rparr>) =
     (defaultConfig, emptyDisk\<lparr>config_file := Some (Json ?config)\<rparr>)"
    by auto
next
  let ?config = "JObj [(lit ''workspaces'', JArr [JStr (lit ''A''), JStr (lit ''C'')]),
        (lit ''activeWorkspace'', JStr (lit ''B''))]"
  have "truthy ?config \<and>
      getProp ?config (lit ''workspaces'') = Inr (JArr [JStr (lit ''A''), JStr (lit ''C'')]) \<and>
      getProp ?config (lit ''activeWorkspace'') = Inr (JStr (lit ''B'')) \<and> truthy (JStr (lit ''B'')) \<and>
      list_all path_element_ok [JStr (lit ''A''), JStr (lit ''C'')] \<and>
      \<not> js_includes [JStr (lit ''A''), JStr (lit ''C'')] (JStr (lit ''B''))"
    by (simp add: lit_def path_element_ok_def js_includes_def)
  with loadWorkspacesConfig_cases [of "emptyDisk\<lparr>config_file := Some (Json ?config)\<rparr>" ?config
      "JStr (lit ''A'')" "[JStr (lit ''C'')]" "JStr (lit ''B'')"]
  show "loadWorkspacesConfig (emptyDisk\<lparr>config_file := Some (Json ?config)\<rparr>) =
     (\<lparr>cfg_workspaces = [JStr (lit ''A''), JStr (lit ''C'')], cfg_activeWorkspace = JStr (lit ''A'')\<rparr>,
      emptyDisk\<lparr>config_file := Some (Json ?config)\<rparr>)"
    by simp
qed

section \<open>Favorites are never evicted\<close>

lemma filter_remove_nth:
  "i < length xs \<Longrightarrow> \<not> P (xs ! i) \<Longrightarrow> filter P (take i xs @ drop (Suc i) xs) = filter P xs"
proof -
  assume i: "i < length xs" and n: "\<not> P (xs ! i)"
  have "filter P xs = filter P (take i xs @ xs ! i # drop (Suc i) xs)"
    using id_take_nth_drop [OF i] by simp
  with n show ?thesis by simp
qed

lemma length_filter_move_last:
  "i < length xs \<Longrightarrow>
   length (filter P (take i xs @ drop (Suc i) xs @ [xs ! i])) = length (filter P xs)"
proof -
  assume i: "i < length xs"
  have "length (filter P xs) = length (filter P (take i xs @ xs ! i # drop (Suc i) xs))"
    using id_take_nth_drop [OF i] by simp
  then show ?thesis by simp
qed

lemma set_remove_nth: "set (take i xs @ drop (Suc i) xs) \<subseteq> set xs"
  using set_take_subset [of i xs] set_drop_subset [of "Suc i" xs] by auto

lemma noFavorite_nth:
  assumes "findIndex noFavorite (clipItemsRadioGroup st) = Some i"
  shows "i < length (storedEntries st) \<and> \<not> favorite (storedEntries st ! i)"
proof -
  from assms have lt: "i < length (clipItemsRadioGroup st)"
    by (rule findIndex_Some_lt)
  from assms have "noFavorite (clipItemsRadioGroup st ! i)"
    by (rule findIndex_Some_nth)
  with lt show ?thesis
    by (simp add: storedEntries_def noFavorite_eq)
qed

lemma removeWhileOver_favorites:
  "filter favorite (storedEntries (removeWhileOver s st)) = filter favorite (storedEntries st)"
proof (induction s st rule: removeWhileOver.induct)
  case (1 s st)
  show ?case
  proof (cases "length (filter noFavorite (clipItemsRadioGroup st)) > MAX_REGISTRY_LENGTH s")
    case False
    then show ?thesis
      by (subst removeWhileOver.simps) simp
  next
    case True
    show ?thesis
    proof (cases "findIndex noFavorite (clipItemsRadioGroup st)")
      case None
      with True show ?thesis
        by (subst removeWhileOver.simps) simp
    next
      case (Some i)
      from noFavorite_nth [OF Some]
      have lt: "i < length (storedEntries st)" and nf: "\<not> favorite (storedEntries st ! i)"
        by simp_all
      have "filter favorite (take i (storedEntries st) @ drop (Suc i) (storedEntries st))
              = filter favorite (storedEntries st)"
        using lt nf by (rule filter_remove_nth)
      with lt
      have "filter favorite (storedEntries (removeEntry s i st)) = filter favorite (storedEntries st)"
        by (simp only: storedEntries_removeEntry if_True)
      with True Some "1.IH" [OF True Some] show ?thesis
        by (subst removeWhileOver.simps) simp
    qed
  qed
qed

lemma removeWhileOver_subset:
  "set (storedEntries (removeWhileOver s st)) \<subseteq> set (storedEntries st)"
proof (induction s st rule: removeWhileOver.induct)
  case (1 s st)
  show ?case
  proof (cases "length (filter noFavorite (clipItemsRadioGroup st)) > MAX_REGISTRY_LENGTH s")
    case False
    then show ?thesis
      by (subst removeWhileOver.simps) simp
  next
    case True
    show ?thesis
    proof (cases "findIndex noFavorite (clipItemsRadioGroup st)")
      case None
      with True show ?thesis
        by (subst removeWhileOver.simps) simp
    next
      case (Some i)
      have "set (storedEntries (removeEntry s i st)) \<subseteq> set (storedEntries st)"
        using set_remove_nth [of i "storedEntries st"] by (simp add: storedEntries_removeEntry)
      with True Some "1.IH" [OF True Some] show ?thesis
        by (subst removeWhileOver.simps) auto
    qed
  qed
qed

lemma removeOldestEntries_favorites:
  "filter favorite (storedEntries (removeOldestEntries s st)) = filter favorite (storedEntries st)"
  by (simp add: removeOldestEntries_def Let_def removeWhileOver_favorites)

lemma removeOldestEntries_subset:
  "set (storedEntries (removeOldestEntries s st)) \<subseteq> set (storedEntries st)"
  by (simp add: removeOldestEntries_def Let_def removeWhileOver_subset)

lemma addOrPromote_favorites:
  "prefix (filter favorite (storedEntries st)) (filter favorite (storedEntries (addOrPromote s r st)))"
proof (cases "findIndex (\<lambda>e. equals e r) (storedEntries st)")
  case None
  then show ?thesis
    by (simp add: storedEntries_addOrPromote removeOldestEntries_favorites)
next
  case (Some i)
  then have lt: "i < length (storedEntries st)"
    by (rule findIndex_Some_lt)
  have "\<not> favorite (storedEntries st ! i) \<Longrightarrow>
        filter favorite (take i (storedEntries st) @ drop (Suc i) (storedEntries st) @ [storedEntries st ! i])
          = filter favorite (storedEntries st)"
    using filter_remove_nth [OF lt, of favorite] by simp
  with Some show ?thesis
    by (simp add: storedEntries_addOrPromote del: length_storedEntries)
qed

lemma foldl_addOrPromote_favorites:
  "prefix (filter favorite (storedEntries st))
     (filter favorite (storedEntries (foldl (\<lambda>acc c. addOrPromote s c acc) st cs)))"
proof (induction cs arbitrary: st)
  case Nil
  then show ?case by simp
next
  case (Cons c cs)
  from addOrPromote_favorites [of st s c] Cons.IH [of "addOrPromote s c st"]
  show ?case by (auto intro: prefix_order.trans)
qed

lemma storedEntries_favoriteToggle:
  assumes "i < length (storedEntries st)"
  shows "storedEntries (favoriteToggle s i st) =
           take i (storedEntries st) @ drop (Suc i) (storedEntries st) @
           [(storedEntries st ! i)\<lparr>favorite := \<not> favorite (storedEntries st ! i)\<rparr>]"
  using assms
  by (simp add: favoriteToggle_def Let_def storedEntries_moveItemFirst isFavorite_def)
     (simp add: storedEntries_def take_map drop_map map_update nth_append)

text \<open>
  Claim C8. Let the oldest entry that is not a favorite be made a favorite by
  \<open>_favoriteToggle\<close>. Whatever entries are captured afterwards (in particular as many
  new, pairwise distinct entries as the history size, for any history size), the
  favorites of the history stay what they were, in their order, with the new favorite
  after them, so this entry is still stored. And \<open>_removeOldestEntries\<close> leaves the
  favorites of any history untouched: it removes only entries whose flag is false.
\<close>

theorem favorite_survives_additions:
  assumes "findIndex noFavorite (clipItemsRadioGroup st) = Some i"
  shows "prefix (filter favorite (storedEntries st) @ [(storedEntries st ! i)\<lparr>favorite := True\<rparr>])
           (filter favorite (storedEntries
              (foldl (\<lambda>acc c. addOrPromote s c acc) (favoriteToggle s i st) cs))) \<and>
         (storedEntries st ! i)\<lparr>favorite := True\<rparr>
           \<in> set (storedEntries (foldl (\<lambda>acc c. addOrPromote s c acc) (favoriteToggle s i st) cs)) \<and>
         filter favorite (storedEntries (removeOldestEntries s st')) = filter favorite (storedEntries st')"
proof -
  let ?es = "storedEntries st"
  let ?e = "(?es ! i)\<lparr>favorite := True\<rparr>"
  let ?final = "foldl (\<lambda>acc c. addOrPromote s c acc) (favoriteToggle s i st) cs"
  from noFavorite_nth [OF assms]
  have lt: "i < length ?es" and nf: "\<not> favorite (?es ! i)"
    by simp_all
  have rem: "filter favorite (take i ?es @ drop (Suc i) ?es) = filter favorite ?es"
    using lt nf by (rule filter_remove_nth)
  have "storedEntries (favoriteToggle s i st) = take i ?es @ drop (Suc i) ?es @ [?e]"
    using storedEntries_favoriteToggle [OF lt, of s] nf by simp
  then have "filter favorite (storedEntries (favoriteToggle s i st)) = filter favorite ?es @ [?e]"
    using rem by simp
  with foldl_addOrPromote_favorites [of "favoriteToggle s i st" s cs]
  have p: "prefix (filter favorite ?es @ [?e]) (filter favorite (storedEntries ?final))"
    by simp
  then have "set (filter favorite ?es @ [?e]) \<subseteq> set (filter favorite (storedEntries ?final))"
    by (rule set_mono_prefix)
  then have "?e \<in> set (storedEntries ?final)"
    by auto
  with p show ?thesis
    by (simp add: removeOldestEntries_favorites)
qed

theorem favorite_survives_additions_witness:
  "findIndex noFavorite (clipItemsRadioGroup
      (emptyIndicator\<lparr>clipItemsRadioGroup :=
         [\<lparr>entry = textEntry ''a'', clipContents = lit ''a'', currentlySelected = False\<rparr>]\<rparr>)) = Some 0 \<and>
   (textEntry ''a'')\<lparr>favorite := True\<rparr>
     \<in> set (storedEntries
         (foldl (\<lambda>acc c. addOrPromote
                    \<lparr>MAX_REGISTRY_LENGTH = 1, CACHE_ONLY_FAVORITE = False, MOVE_ITEM_FIRST = False, PRIVATEMODE = False\<rparr> c acc)
            (favoriteToggle
               \<lparr>MAX_REGISTRY_LENGTH = 1, CACHE_ONLY_FAVORITE = False, MOVE_ITEM_FIRST = False, PRIVATEMODE = False\<rparr> 0
               (emptyIndicator\<lparr>clipItemsRadioGroup :=
                  [\<lparr>entry = textEntry ''a'', clipContents = lit ''a'', currentlySelected = False\<rparr>]\<rparr>))
            [textEntry ''b'', textEntry ''c'']))"
proof -
  let ?st = "emptyIndicator\<lparr>clipItemsRadioGroup :=
         [\<lparr>entry = textEntry ''a'', clipContents = lit ''a'', currentlySelected = False\<rparr>]\<rparr>"
  have h: "findIndex noFavorite (clipItemsRadioGroup ?st) = Some 0"
    by (simp add: noFavorite_def isFavorite_def textEntry_def)
  have "storedEntries ?st ! 0 = textEntry ''a''"
    by (simp add: storedEntries_def)
  with favorite_survives_additions [OF h,
      of "\<lparr>MAX_REGISTRY_LENGTH = 1, CACHE_ONLY_FAVORITE = False, MOVE_ITEM_FIRST = False, PRIVATEMODE = False\<rparr>"
         "[textEntry ''b'', textEntry ''c'']"] h
  show ?thesis
    by simp
qed

section \<open>Switching between workspaces\<close>

text \<open>
  A plain workspace name is one path component: not empty, not \<open>.\<close> or \<open>..\<close>, without
  a separator, without a NUL and without surrogates (so that the file name made from it
  determines it). Two different plain names are two different directories.
\<close>

definition plainName :: "jsstring \<Rightarrow> bool" where
  "plainName w =
     (w \<noteq> [] \<and> w \<noteq> lit ''.'' \<and> w \<noteq> lit ''..'' \<and>
      (\<forall>u \<in> set w. u \<noteq> 0x2F \<and> u \<noteq> 0 \<and> \<not> is_high u \<and> \<not> is_low u))"

lemma splitSlash_no_slash: "\<forall>u \<in> set w. u \<noteq> 0x2F \<Longrightarrow> splitSlash w = [w]"
  by (induction w) simp_all

lemma getWorkspaceDir_plainName:
  "plainName w \<Longrightarrow> getWorkspaceDir d (Some w) = resolvePath (cacheDir d) @ [w]"
  by (simp add: getWorkspaceDir_def plainName_def splitSlash_no_slash resolvePath_def resolveStep_def)

lemma getWorkspaceDir_plainName_distinct:
  "plainName W1 \<Longrightarrow> plainName W2 \<Longrightarrow> W1 \<noteq> W2 \<Longrightarrow>
   getWorkspaceDir d (Some W1) \<noteq> getWorkspaceDir d (Some W2)"
  by (simp add: getWorkspaceDir_plainName)

text \<open>
  The manifest of a workspace holds the entries \<open>es\<close>: it is what \<open>write\<close> stores for
  them, or there is no manifest and no entry.
\<close>

definition manifestHolds :: "disk \<Rightarrow> jsstring option \<Rightarrow> ClipboardEntry list \<Rightarrow> bool" where
  "manifestHolds d w es =
     ((es = [] \<and> cache_files d (getWorkspaceDir d w) = None) \<or>
      (cache_files d (getWorkspaceDir d w) = Some (Json (jsonify (JArr (map toJSON es)))) \<and>
       (\<forall>e \<in> set es. mimetype e \<noteq> [])))"

lemma registry_read_manifestHolds:
  "manifestHolds d w es \<Longrightarrow> registry_read d w = map reread es"
  by (auto simp add: manifestHolds_def registry_read_def map_filter_read_entry)

lemma manifestHolds_registry_write:
  "\<forall>e \<in> set es. mimetype e \<noteq> [] \<Longrightarrow> manifestHolds (registry_write d es w) w es"
  by (simp add: manifestHolds_def registry_write_def)

lemma registry_read_saveWorkspacesConfig [simp]:
  "registry_read (saveWorkspacesConfig d ws a) w = registry_read d w"
  by (simp add: registry_read_def) (simp add: saveWorkspacesConfig_def)

lemma foldl_addEntry:
  "storedEntries (foldl (\<lambda>acc e. addEntry e False acc) st h) = storedEntries st @ h \<and>
   registry (foldl (\<lambda>acc e. addEntry e False acc) st h) = registry st \<and>
   activeWorkspace (foldl (\<lambda>acc e. addEntry e False acc) st h) = activeWorkspace st \<and>
   workspaces (foldl (\<lambda>acc e. addEntry e False acc) st h) = workspaces st"
proof (induction h arbitrary: st)
  case Nil
  then show ?case by simp
next
  case (Cons e h)
  have "workspaces (addEntry e False st) = workspaces st"
    by (simp add: addEntry_def Let_def)
  with Cons.IH [of "addEntry e False st"] show ?case
    by simp
qed

lemma workspaces_onMenuItemSelected [simp]: "workspaces (onMenuItemSelected i st) = workspaces st"
  by (simp add: onMenuItemSelected_def Let_def)

lemma workspaces_addEntry [simp]: "workspaces (addEntry e b st) = workspaces st"
  by (simp add: addEntry_def Let_def selectMenuItem_def)

lemma loadHistory_fields:
  "storedEntries (loadHistory h st) = storedEntries st @ h \<and>
   registry (loadHistory h st) = registry st \<and>
   activeWorkspace (loadHistory h st) = activeWorkspace st \<and>
   workspaces (loadHistory h st) = workspaces st"
  by (simp add: loadHistory_def selectMenuItem_def foldl_addEntry)

text \<open>The entries that \<open>_updateCache\<close> writes to the manifest.\<close>

definition persisted :: "settings \<Rightarrow> indicator \<Rightarrow> ClipboardEntry list" where
  "persisted s st = filter (\<lambda>e. CACHE_ONLY_FAVORITE s = False \<or> isFavorite e) (storedEntries st)"

lemma switchPersist_fields:
  "registry (switchPersist s st) = registry_write (registry st) (persisted s st) (activeWorkspace st) \<and>
   activeWorkspace (switchPersist s st) = activeWorkspace st \<and>
   workspaces (switchPersist s st) = workspaces st \<and>
   storedEntries (switchPersist s st) = []"
  by (simp add: switchPersist_def registry_updateCache persisted_def)
     (simp add: updateCache_def storedEntries_def)

lemma switchActivate_fields:
  "registry (switchActivate name st) =
     saveWorkspacesConfig (registry st) (map JStr (workspaces st))
       (case name of None \<Rightarrow> JUndefined | Some a \<Rightarrow> JStr a) \<and>
   activeWorkspace (switchActivate name st) = name \<and>
   workspaces (switchActivate name st) = workspaces st \<and>
   storedEntries (switchActivate name st) = storedEntries st"
  by (simp add: switchActivate_def saveWorkspacesConfig_indicator_def storedEntries_def)

lemma switchLoad_fields:
  "registry (switchLoad st) = registry st \<and>
   activeWorkspace (switchLoad st) = activeWorkspace st \<and>
   workspaces (switchLoad st) = workspaces st \<and>
   storedEntries (switchLoad st) = storedEntries st @ registry_read (registry st) (activeWorkspace st)"
  using loadHistory_fields [of "getCache st" st]
  by (simp add: switchLoad_def switchRetry_def Let_def) (simp add: getCache_def)

lemma switchWorkspace_fields:
  "registry (switchWorkspace s name st) =
     saveWorkspacesConfig
       (registry_write (registry st) (persisted s st) (activeWorkspace st))
       (map JStr (workspaces st))
       (case switchTarget name st of None \<Rightarrow> JUndefined | Some a \<Rightarrow> JStr a) \<and>
   activeWorkspace (switchWorkspace s name st) = switchTarget name st \<and>
   workspaces (switchWorkspace s name st) = workspaces st \<and>
   storedEntries (switchWorkspace s name st) =
     registry_read (registry_write (registry st) (persisted s st) (activeWorkspace st))
       (switchTarget name st)"
  by (simp add: switchWorkspace_def switchLoad_fields switchActivate_fields switchPersist_fields)

lemma switch_there_and_back:
  assumes p1: "plainName W1" and p2: "plainName W2" and ne: "W1 \<noteq> W2"
    and w1: "W1 \<in> set (workspaces st)" and w2: "W2 \<in> set (workspaces st)"
    and act: "activeWorkspace st = Some W1"
    and wf: "\<forall>e \<in> set (storedEntries st). mimetype e \<noteq> []"
    and m2: "manifestHolds (registry st) (Some W2) es2"
  shows "storedEntries (switchWorkspace s W2 st) = map reread es2"
    and "storedEntries (switchWorkspace s W1 (switchWorkspace s W2 st)) = map reread (persisted s st)"
proof -
  let ?st2 = "switchWorkspace s W2 st"
  let ?d1 = "registry_write (registry st) (persisted s st) (Some W1)"
  have dirs: "\<And>d. getWorkspaceDir d (Some W1) \<noteq> getWorkspaceDir d (Some W2)"
    using p1 p2 ne by (rule getWorkspaceDir_plainName_distinct)
  from w2 have t2: "switchTarget W2 st = Some W2"
    by (simp add: switchTarget_def)
  from switchWorkspace_fields [of s W2 st] t2 act
  have r2: "registry ?st2 = saveWorkspacesConfig ?d1 (map JStr (workspaces st)) (JStr W2)"
    and a2: "activeWorkspace ?st2 = Some W2"
    and ws2: "workspaces ?st2 = workspaces st"
    and e2: "storedEntries ?st2 = registry_read ?d1 (Some W2)"
    by simp_all
  have "registry_read ?d1 (Some W2) = registry_read (registry st) (Some W2)"
    using dirs [of "registry st", symmetric] by (rule registry_read_write_other)
  with e2 registry_read_manifestHolds [OF m2]
  show "storedEntries ?st2 = map reread es2"
    by simp
  from w1 ws2 have t1: "switchTarget W1 ?st2 = Some W1"
    by (simp add: switchTarget_def)
  from wf have wf': "\<forall>e \<in> set (persisted s st). mimetype e \<noteq> []"
    by (simp add: persisted_def)
  from switchWorkspace_fields [of s W1 ?st2] t1 a2
  have "storedEntries (switchWorkspace s W1 ?st2) =
      registry_read (registry_write (registry ?st2) (persisted s ?st2) (Some W2)) (Some W1)"
    by simp
  also have "\<dots> = registry_read (registry ?st2) (Some W1)"
    using dirs [of "registry ?st2"] by (rule registry_read_write_other)
  also have "\<dots> = map reread (persisted s st)"
    using wf' by (simp add: r2 registry_read_write_same)
  finally show "storedEntries (switchWorkspace s W1 ?st2) = map reread (persisted s st)" .
qed


lemma plainName_W1_W2: "plainName (lit ''W1'')" "plainName (lit ''W2'')" "lit ''W1'' \<noteq> lit ''W2''"
  by (simp_all add: plainName_def lit_def is_high_def is_low_def)

lemma manifestHolds_emptyDisk: "manifestHolds emptyDisk w []"
  by (simp add: manifestHolds_def emptyDisk_def)

lemma capture_emptyIndicator:
  "addOrPromote s e emptyIndicator = addEntry e True (addToCache s e emptyIndicator)"
  by (auto simp add: addOrPromote_def emptyIndicator_def)

lemma manifestHolds_other:
  "getWorkspaceDir d w' \<noteq> getWorkspaceDir d w \<Longrightarrow>
   manifestHolds (registry_write d es w) w' es' = manifestHolds d w' es'"
  by (simp add: manifestHolds_def registry_write_def)


text \<open>
  What the waits of a switch allow. The history of \<open>W1\<close> holds \<open>a\<close>. A capture of \<open>b\<close>
  that runs after the first segment of the switch to \<open>W2\<close> finds the menu empty and
  \<open>W1\<close> still active: it writes the manifest of \<open>W1\<close> anew with \<open>b\<close> alone, and \<open>b\<close> is
  in the menu when \<open>W2\<close> has been loaded.
\<close>

lemma capture_during_switch_overwrites:
  "storedEntries
     (switchLoad (switchActivate (Some (lit ''W2''))
        (addOrPromote \<lparr>MAX_REGISTRY_LENGTH = 2, CACHE_ONLY_FAVORITE = False, MOVE_ITEM_FIRST = False, PRIVATEMODE = False\<rparr> (textEntry ''b'')
           (switchPersist \<lparr>MAX_REGISTRY_LENGTH = 2, CACHE_ONLY_FAVORITE = False, MOVE_ITEM_FIRST = False, PRIVATEMODE = False\<rparr>
              (emptyIndicator\<lparr>clipItemsRadioGroup :=
                 [\<lparr>entry = textEntry ''a'', clipContents = lit ''a'', currentlySelected = False\<rparr>]\<rparr>)))))
     = [textEntry ''b''] \<and>
   registry_read (registry
     (switchLoad (switchActivate (Some (lit ''W2''))
        (addOrPromote \<lparr>MAX_REGISTRY_LENGTH = 2, CACHE_ONLY_FAVORITE = False, MOVE_ITEM_FIRST = False, PRIVATEMODE = False\<rparr> (textEntry ''b'')
           (switchPersist \<lparr>MAX_REGISTRY_LENGTH = 2, CACHE_ONLY_FAVORITE = False, MOVE_ITEM_FIRST = False, PRIVATEMODE = False\<rparr>
              (emptyIndicator\<lparr>clipItemsRadioGroup :=
                 [\<lparr>entry = textEntry ''a'', clipContents = lit ''a'', currentlySelected = False\<rparr>]\<rparr>))))))
     (Some (lit ''W1''))
     = [textEntry ''b'']"
proof -
  let ?s = "\<lparr>MAX_REGISTRY_LENGTH = 2, CACHE_ONLY_FAVORITE = False, MOVE_ITEM_FIRST = False, PRIVATEMODE = False\<rparr>"
  let ?st = "emptyIndicator\<lparr>clipItemsRadioGroup :=
                 [\<lparr>entry = textEntry ''a'', clipContents = lit ''a'', currentlySelected = False\<rparr>]\<rparr>"
  let ?p = "switchPersist ?s ?st"
  let ?c = "addOrPromote ?s (textEntry ''b'') ?p"
  have p: "storedEntries ?p = []" "activeWorkspace ?p = Some (lit ''W1'')"
    using switchPersist_fields [of ?s ?st] by (simp_all add: emptyIndicator_def)
  have items: "clipItemsRadioGroup ?p = []"
    by (simp add: switchPersist_def)
  have c: "?c = addEntry (textEntry ''b'') True (addToCache ?s (textEntry ''b'') ?p)"
    by (simp add: addOrPromote_def items)
  have ec: "storedEntries ?c = [textEntry ''b'']"
    by (simp add: c p)
  have rc: "registry ?c = registry_write (registry ?p) [textEntry ''b''] (Some (lit ''W1''))"
    by (simp add: c registry_addToCache p)
  have ac: "activeWorkspace ?c = Some (lit ''W1'')"
    by (simp add: c addToCache_def p)
  have dirs: "\<And>d. getWorkspaceDir d (Some (lit ''W2'')) \<noteq> getWorkspaceDir d (Some (lit ''W1''))"
    using plainName_W1_W2(2) plainName_W1_W2(1) by (rule getWorkspaceDir_plainName_distinct) (simp add: lit_def)
  have rp: "registry ?p = registry_write emptyDisk (persisted ?s ?st) (Some (lit ''W1''))"
    using switchPersist_fields [of ?s ?st] by (simp add: emptyIndicator_def)
  have r2: "registry_read (registry ?c) (Some (lit ''W2'')) = []"
    by (simp add: rc rp registry_read_write_other dirs)
       (simp add: registry_read_def emptyDisk_def)
  have "is_ascii (bytes (textEntry ''b''))"
    by (simp add: is_ascii_def textEntry_def)
  then have "utf8_encode (utf8_decode (bytes (textEntry ''b''))) = bytes (textEntry ''b'')"
    by (rule utf8_encode_decode_ascii)
  then have rr: "reread (textEntry ''b'') = textEntry ''b''"
    by (simp add: reread_def) (simp add: textEntry_def isImage_def startsWith_def lit_def)
  have wfb: "\<forall>e \<in> set [textEntry ''b'']. mimetype e \<noteq> []"
    by (simp add: textEntry_def lit_def)
  have r1: "registry_read (registry ?c) (Some (lit ''W1'')) = [textEntry ''b'']"
    using registry_read_write_same [OF wfb, of "registry ?p" "Some (lit ''W1'')"] rr
    by (simp only: rc list.map)
  show ?thesis
    by (simp add: switchLoad_fields switchActivate_fields ec r1 r2)
qed




section \<open>Capturing the same content twice\<close>

lemma length_filter_zero_subset:
  "set ys \<subseteq> set xs \<Longrightarrow> length (filter P xs) = 0 \<Longrightarrow> length (filter P ys) = 0"
  by (auto simp add: filter_empty_conv)

lemma findIndex_exists: "length (filter P xs) \<noteq> 0 \<Longrightarrow> \<exists>i. findIndex P xs = Some i"
  by (cases "findIndex P xs") (auto simp add: findIndex_None filter_empty_conv)

lemma addOrPromote_existing:
  assumes eq: "\<And>x. equals x r = P x"
    and one: "length (filter P (storedEntries st)) \<noteq> 0"
  shows "length (filter P (storedEntries (addOrPromote s r st))) = length (filter P (storedEntries st))"
proof -
  from findIndex_exists [OF one] obtain i where f: "findIndex P (storedEntries st) = Some i"
    by blast
  then have lt: "i < length (storedEntries st)"
    by (rule findIndex_Some_lt)
  from f eq have f': "findIndex (\<lambda>e. equals e r) (storedEntries st) = Some i"
    by simp
  show ?thesis
    using length_filter_move_last [OF lt, of P]
    by (simp add: storedEntries_addOrPromote f' del: length_storedEntries)
qed

lemma addOrPromote_new:
  assumes eq: "\<And>x. equals x r = P x"
    and none: "length (filter P (storedEntries st)) = 0"
    and r: "P r"
  shows "length (filter P (storedEntries (addOrPromote s r st))) = 1"
proof -
  from none have "\<forall>x \<in> set (storedEntries st). \<not> P x"
    by (simp add: filter_empty_conv)
  with eq have f: "findIndex (\<lambda>e. equals e r) (storedEntries st) = None"
    by (simp add: findIndex_None)
  from length_filter_zero_subset [OF removeOldestEntries_subset none]
  have "length (filter P (storedEntries (removeOldestEntries s st))) = 0" .
  with none r show ?thesis
    by (simp add: storedEntries_addOrPromote f)
qed

text \<open>
  A capture never adds a second entry with the same text projection: a history
  without two such entries stays so.
\<close>

lemma distinct_map_remove_nth:
  assumes "distinct (map f xs)"
  shows "distinct (map f (take i xs @ drop (Suc i) xs))"
proof (cases "i < length xs")
  case True
  from id_take_nth_drop [OF True] have "map f xs = map f (take i xs @ xs ! i # drop (Suc i) xs)"
    by simp
  with assms have "distinct (map f (take i xs @ xs ! i # drop (Suc i) xs))"
    by simp
  then show ?thesis
    by auto
next
  case False
  with assms show ?thesis
    by simp
qed

lemma distinct_map_move_last:
  assumes "distinct (map f xs)" and "i < length xs"
  shows "distinct (map f (take i xs @ drop (Suc i) xs @ [xs ! i]))"
proof -
  from id_take_nth_drop [OF assms(2)] have "map f xs = map f (take i xs @ xs ! i # drop (Suc i) xs)"
    by simp
  with assms(1) have "distinct (map f (take i xs @ xs ! i # drop (Suc i) xs))"
    by simp
  then show ?thesis
    by auto
qed

lemma removeWhileOver_distinct:
  "distinct (map f (storedEntries st)) \<Longrightarrow> distinct (map f (storedEntries (removeWhileOver s st)))"
proof (induction s st rule: removeWhileOver.induct)
  case (1 s st)
  show ?case
  proof (cases "length (filter noFavorite (clipItemsRadioGroup st)) > MAX_REGISTRY_LENGTH s")
    case False
    with "1.prems" show ?thesis
      by (subst removeWhileOver.simps) simp
  next
    case True
    show ?thesis
    proof (cases "findIndex noFavorite (clipItemsRadioGroup st)")
      case None
      with True "1.prems" show ?thesis
        by (subst removeWhileOver.simps) simp
    next
      case (Some i)
      have "distinct (map f (storedEntries (removeEntry s i st)))"
        using distinct_map_remove_nth [OF "1.prems", of i] "1.prems"
        by (simp add: storedEntries_removeEntry)
      with True Some "1.IH" [OF True Some] show ?thesis
        by (subst removeWhileOver.simps) simp
    qed
  qed
qed

lemma removeOldestEntries_distinct:
  "distinct (map f (storedEntries st)) \<Longrightarrow> distinct (map f (storedEntries (removeOldestEntries s st)))"
  by (simp add: removeOldestEntries_def Let_def removeWhileOver_distinct)

lemma addOrPromote_distinct:
  assumes "distinct (map getStringValue (storedEntries st))"
  shows "distinct (map getStringValue (storedEntries (addOrPromote s r st)))"
proof (cases "findIndex (\<lambda>e. equals e r) (storedEntries st)")
  case None
  then have "\<forall>x \<in> set (storedEntries st). getStringValue x \<noteq> getStringValue r"
    by (simp add: findIndex_None equals_def)
  with removeOldestEntries_subset [of s st]
  have "\<forall>x \<in> set (storedEntries (removeOldestEntries s st)). getStringValue x \<noteq> getStringValue r"
    by blast
  with None assms removeOldestEntries_distinct [OF assms, of s]
    \<open>\<forall>x \<in> set (storedEntries st). getStringValue x \<noteq> getStringValue r\<close>
  show ?thesis
    by (auto simp add: storedEntries_addOrPromote)
next
  case (Some i)
  then have lt: "i < length (storedEntries st)"
    by (rule findIndex_Some_lt)
  from Some assms distinct_map_move_last [OF assms lt] show ?thesis
    by (simp add: storedEntries_addOrPromote del: length_storedEntries)
qed

lemma mset_move_last:
  "i < length xs \<Longrightarrow> mset (take i xs @ drop (Suc i) xs @ [xs ! i]) = mset xs"
proof -
  assume i: "i < length xs"
  have "mset xs = mset (take i xs @ xs ! i # drop (Suc i) xs)"
    using id_take_nth_drop [OF i] by simp
  then show ?thesis by simp
qed

lemma nth_onMenuItemSelected:
  assumes "i < length (clipItemsRadioGroup st)" and "j < length (clipItemsRadioGroup st)"
  shows "clipItemsRadioGroup (onMenuItemSelected i st) ! j =
           (clipItemsRadioGroup st ! j)
             \<lparr>currentlySelected := (j = i \<and> clipContents (clipItemsRadioGroup st ! i) \<noteq> [])\<rparr>"
  using assms by (simp add: onMenuItemSelected_def Let_def nth_enumerate_eq)

text \<open>
  Which items are marked as the chosen one. \<open>selectedOnly P\<close>: every marked item holds
  an entry with \<open>P\<close>. \<open>clipContentsOk\<close>: the \<open>clipContents\<close> of every item is the text
  of its entry, which is how \<open>_addEntry\<close> creates an item; it holds in the empty history
  and the operations keep it.
\<close>

definition selectedOnly :: "(ClipboardEntry \<Rightarrow> bool) \<Rightarrow> indicator \<Rightarrow> bool" where
  "selectedOnly P st = (\<forall>m \<in> set (clipItemsRadioGroup st). currentlySelected m \<longrightarrow> P (entry m))"

definition clipContentsOk :: "indicator \<Rightarrow> bool" where
  "clipContentsOk st = (\<forall>m \<in> set (clipItemsRadioGroup st). clipContents m = getStringValue (entry m))"

lemma selectedOnly_select:
  assumes i: "i < length (clipItemsRadioGroup st)" and P: "P (entry (clipItemsRadioGroup st ! i))"
  shows "selectedOnly P (selectMenuItem i st)"
  unfolding selectedOnly_def selectMenuItem_def
proof (intro ballI impI)
  fix m
  assume m: "m \<in> set (clipItemsRadioGroup (onMenuItemSelected i st))" and sel: "currentlySelected m"
  from m obtain j where j: "j < length (clipItemsRadioGroup st)"
    and mj: "m = clipItemsRadioGroup (onMenuItemSelected i st) ! j"
    by (auto simp add: in_set_conv_nth)
  from nth_onMenuItemSelected [OF i j] mj sel have "j = i"
    by simp
  with nth_onMenuItemSelected [OF i j] mj P show "P (entry m)"
    by simp
qed

lemma not_selected_after_select:
  assumes i: "i < length (clipItemsRadioGroup st)"
    and m: "m \<in> set (take i (clipItemsRadioGroup (selectMenuItem i st)) @
                      drop (Suc i) (clipItemsRadioGroup (selectMenuItem i st)))"
  shows "\<not> currentlySelected m"
proof -
  let ?xs = "clipItemsRadioGroup (selectMenuItem i st)"
  have len: "length ?xs = length (clipItemsRadioGroup st)"
    by (simp add: selectMenuItem_def)
  from m consider "m \<in> set (take i ?xs)" | "m \<in> set (drop (Suc i) ?xs)"
    by auto
  then obtain j where "j < length ?xs" and "j \<noteq> i" and "m = ?xs ! j"
  proof cases
    case 1
    then obtain k where "k < length (take i ?xs)" and "m = take i ?xs ! k"
      by (auto simp add: in_set_conv_nth)
    then have "k < length ?xs \<and> k \<noteq> i \<and> m = ?xs ! k"
      by simp
    with that show ?thesis by blast
  next
    case 2
    then obtain k where "k < length (drop (Suc i) ?xs)" and "m = drop (Suc i) ?xs ! k"
      by (auto simp add: in_set_conv_nth)
    then have "Suc i + k < length ?xs \<and> Suc i + k \<noteq> i \<and> m = ?xs ! (Suc i + k)"
      by simp
    with that show ?thesis by blast
  qed
  with nth_onMenuItemSelected [OF i, of j] len show ?thesis
    by (simp add: selectMenuItem_def)
qed


lemma selectedOnly_updateCache [simp]: "selectedOnly P (updateCache s st) = selectedOnly P st"
  by (simp add: selectedOnly_def)

lemma clipContentsOk_updateCache [simp]: "clipContentsOk (updateCache s st) = clipContentsOk st"
  by (simp add: clipContentsOk_def)

lemma clipContentsOk_addToCache [simp]: "clipContentsOk (addToCache s e st) = clipContentsOk st"
  by (simp add: clipContentsOk_def)

lemma clipItems_addEntry:
  "clipItemsRadioGroup (addEntry e b st) =
     (let items = clipItemsRadioGroup st @
            [\<lparr>entry = e, clipContents = getStringValue e, currentlySelected = False\<rparr>]
      in if b then clipItemsRadioGroup
                     (selectMenuItem (length (clipItemsRadioGroup st)) (st\<lparr>clipItemsRadioGroup := items\<rparr>))
         else items)"
  by (simp add: addEntry_def Let_def)

lemma selectedOnly_addEntry:
  assumes none: "\<forall>m \<in> set (clipItemsRadioGroup st). \<not> currentlySelected m" and P: "P e"
  shows "selectedOnly P (addEntry e b st)"
proof (cases b)
  case True
  let ?new = "\<lparr>entry = e, clipContents = getStringValue e, currentlySelected = False\<rparr>"
  let ?st1 = "st\<lparr>clipItemsRadioGroup := clipItemsRadioGroup st @ [?new]\<rparr>"
  have "selectedOnly P (selectMenuItem (length (clipItemsRadioGroup st)) ?st1)"
    by (rule selectedOnly_select) (simp_all add: P)
  with True show ?thesis
    by (simp add: addEntry_def Let_def)
next
  case False
  with none show ?thesis
    by (auto simp add: addEntry_def Let_def selectedOnly_def)
qed

lemma selectedOnly_moveItemFirst:
  assumes i: "i < length (clipItemsRadioGroup st)"
    and none: "\<forall>m \<in> set (take i (clipItemsRadioGroup st) @ drop (Suc i) (clipItemsRadioGroup st)).
                 \<not> currentlySelected m"
    and P: "P (entry (clipItemsRadioGroup st ! i))"
  shows "selectedOnly P (moveItemFirst s i st)"
proof -
  from none i have "\<forall>m \<in> set (clipItemsRadioGroup (removeEntry s i st)). \<not> currentlySelected m"
    by (simp add: clipItems_removeEntry)
  then have "selectedOnly P (addEntry (entry (clipItemsRadioGroup st ! i))
      (currentlySelected (clipItemsRadioGroup st ! i)) (removeEntry s i st))"
    using P by (rule selectedOnly_addEntry)
  with i show ?thesis
    by (simp add: moveItemFirst_def Let_def)
qed

lemma addOrPromote_existing_selectedOnly:
  assumes f: "findIndex (\<lambda>menuItem. equals (entry menuItem) r) (clipItemsRadioGroup st) = Some i"
  shows "selectedOnly (\<lambda>e. equals e r) (addOrPromote s r st)"
proof -
  let ?st1 = "selectMenuItem i st"
  from f have i: "i < length (clipItemsRadioGroup st)"
    by (rule findIndex_Some_lt)
  from f have P: "equals (entry (clipItemsRadioGroup st ! i)) r"
    by (rule findIndex_Some_nth)
  have len: "length (clipItemsRadioGroup ?st1) = length (clipItemsRadioGroup st)"
    by (simp add: selectMenuItem_def)
  have ent: "entry (clipItemsRadioGroup ?st1 ! i) = entry (clipItemsRadioGroup st ! i)"
    using nth_onMenuItemSelected [OF i i] by (simp add: selectMenuItem_def)
  have a: "selectedOnly (\<lambda>e. equals e r) ?st1"
    using i P by (rule selectedOnly_select)
  have b: "selectedOnly (\<lambda>e. equals e r) (moveItemFirst s i ?st1)"
  proof (rule selectedOnly_moveItemFirst)
    show "i < length (clipItemsRadioGroup ?st1)"
      using i len by simp
    show "\<forall>m \<in> set (take i (clipItemsRadioGroup ?st1) @ drop (Suc i) (clipItemsRadioGroup ?st1)).
            \<not> currentlySelected m"
      using not_selected_after_select [OF i] by blast
    show "equals (entry (clipItemsRadioGroup ?st1 ! i)) r"
      using ent P by simp
  qed
  from a b f show ?thesis
    by (simp add: addOrPromote_def Let_def)
qed

lemma selected_addEntry_True:
  assumes "getStringValue e \<noteq> []"
  shows "\<exists>m \<in> set (clipItemsRadioGroup (addEntry e True st)). entry m = e \<and> currentlySelected m"
proof -
  let ?new = "\<lparr>entry = e, clipContents = getStringValue e, currentlySelected = False\<rparr>"
  let ?st1 = "st\<lparr>clipItemsRadioGroup := clipItemsRadioGroup st @ [?new]\<rparr>"
  let ?n = "length (clipItemsRadioGroup st)"
  let ?res = "clipItemsRadioGroup (onMenuItemSelected ?n ?st1)"
  have n: "?n < length (clipItemsRadioGroup ?st1)"
    by simp
  from nth_onMenuItemSelected [OF n n] assms
  have "entry (?res ! ?n) = e \<and> currentlySelected (?res ! ?n)"
    by simp
  moreover have "?res ! ?n \<in> set ?res"
    by (rule nth_mem) simp
  ultimately show ?thesis
    by (auto simp add: addEntry_def Let_def selectMenuItem_def)
qed

lemma addOrPromote_existing_selected:
  assumes f: "findIndex (\<lambda>menuItem. equals (entry menuItem) r) (clipItemsRadioGroup st) = Some i"
    and ok: "clipContentsOk st" and r: "getStringValue r \<noteq> []"
  shows "\<exists>m \<in> set (clipItemsRadioGroup (addOrPromote s r st)). equals (entry m) r \<and> currentlySelected m"
proof -
  let ?st1 = "selectMenuItem i st"
  let ?item = "clipItemsRadioGroup ?st1 ! i"
  from f have i: "i < length (clipItemsRadioGroup st)"
    by (rule findIndex_Some_lt)
  from f have P: "equals (entry (clipItemsRadioGroup st ! i)) r"
    by (rule findIndex_Some_nth)
  from ok i have "clipContents (clipItemsRadioGroup st ! i) = getStringValue (entry (clipItemsRadioGroup st ! i))"
    by (simp add: clipContentsOk_def)
  with P r have clip: "clipContents (clipItemsRadioGroup st ! i) \<noteq> []"
    by (simp add: equals_def)
  have len: "length (clipItemsRadioGroup ?st1) = length (clipItemsRadioGroup st)"
    by (simp add: selectMenuItem_def)
  from nth_onMenuItemSelected [OF i i] clip
  have item: "entry ?item = entry (clipItemsRadioGroup st ! i)" "currentlySelected ?item"
    by (simp_all add: selectMenuItem_def)
  have mem: "?item \<in> set (clipItemsRadioGroup ?st1)"
    by (rule nth_mem) (simp add: len i)
  have a: "\<exists>m \<in> set (clipItemsRadioGroup ?st1). equals (entry m) r \<and> currentlySelected m"
  proof (rule bexI)
    show "equals (entry ?item) r \<and> currentlySelected ?item"
      using item P by simp
    show "?item \<in> set (clipItemsRadioGroup ?st1)"
      by (rule mem)
  qed
  from P r item have g: "getStringValue (entry ?item) \<noteq> []"
    by (simp add: equals_def)
  from selected_addEntry_True [OF g, of "removeEntry s i ?st1"] obtain m
    where m: "m \<in> set (clipItemsRadioGroup (addEntry (entry ?item) True (removeEntry s i ?st1)))"
      and em: "entry m = entry ?item" and sm: "currentlySelected m"
    by blast
  have mv: "clipItemsRadioGroup (moveItemFirst s i ?st1) =
      clipItemsRadioGroup (addEntry (entry ?item) True (removeEntry s i ?st1))"
    using i len item(2) by (simp add: moveItemFirst_def Let_def)
  have b: "\<exists>m \<in> set (clipItemsRadioGroup (moveItemFirst s i ?st1)). equals (entry m) r \<and> currentlySelected m"
  proof (rule bexI)
    show "equals (entry m) r \<and> currentlySelected m"
      using em sm item(1) P by simp
    show "m \<in> set (clipItemsRadioGroup (moveItemFirst s i ?st1))"
      using m mv by simp
  qed
  from a b f show ?thesis
    by (simp add: addOrPromote_def Let_def)
qed


lemma clipContentsOk_onMenuItemSelected:
  assumes "clipContentsOk st"
  shows "clipContentsOk (onMenuItemSelected i st)"
proof (cases "i < length (clipItemsRadioGroup st)")
  case False
  with assms show ?thesis
    by (simp add: onMenuItemSelected_def Let_def)
next
  case True
  show ?thesis
    unfolding clipContentsOk_def
  proof
    fix m
    assume "m \<in> set (clipItemsRadioGroup (onMenuItemSelected i st))"
    then obtain j where j: "j < length (clipItemsRadioGroup st)"
      and mj: "m = clipItemsRadioGroup (onMenuItemSelected i st) ! j"
      by (auto simp add: in_set_conv_nth)
    from assms j have "clipContents (clipItemsRadioGroup st ! j) =
        getStringValue (entry (clipItemsRadioGroup st ! j))"
      by (simp add: clipContentsOk_def)
    with nth_onMenuItemSelected [OF True j] mj
    show "clipContents m = getStringValue (entry m)"
      by simp
  qed
qed

lemma clipContentsOk_addEntry:
  assumes "clipContentsOk st"
  shows "clipContentsOk (addEntry e b st)"
proof -
  let ?new = "\<lparr>entry = e, clipContents = getStringValue e, currentlySelected = False\<rparr>"
  let ?st1 = "st\<lparr>clipItemsRadioGroup := clipItemsRadioGroup st @ [?new]\<rparr>"
  from assms have ok1: "clipContentsOk ?st1"
    by (simp add: clipContentsOk_def)
  then have "clipContentsOk (selectMenuItem (length (clipItemsRadioGroup st)) ?st1)"
    unfolding selectMenuItem_def by (rule clipContentsOk_onMenuItemSelected)
  with ok1 show ?thesis
    by (simp add: addEntry_def Let_def)
qed

lemma clipContentsOk_subset:
  "set (clipItemsRadioGroup st') \<subseteq> set (clipItemsRadioGroup st) \<Longrightarrow> clipContentsOk st \<Longrightarrow>
   clipContentsOk st'"
  by (auto simp add: clipContentsOk_def)

lemma clipItems_removeEntry_subset:
  "set (clipItemsRadioGroup (removeEntry s i st)) \<subseteq> set (clipItemsRadioGroup st)"
  using set_remove_nth [of i "clipItemsRadioGroup st"] by (simp add: clipItems_removeEntry)

lemma clipItems_removeWhileOver_subset:
  "set (clipItemsRadioGroup (removeWhileOver s st)) \<subseteq> set (clipItemsRadioGroup st)"
proof (induction s st rule: removeWhileOver.induct)
  case (1 s st)
  show ?case
  proof (cases "length (filter noFavorite (clipItemsRadioGroup st)) > MAX_REGISTRY_LENGTH s")
    case False
    then show ?thesis
      by (subst removeWhileOver.simps) simp
  next
    case True
    show ?thesis
    proof (cases "findIndex noFavorite (clipItemsRadioGroup st)")
      case None
      with True show ?thesis
        by (subst removeWhileOver.simps) simp
    next
      case (Some i)
      with True "1.IH" [OF True Some] clipItems_removeEntry_subset [of s i st] show ?thesis
        by (subst removeWhileOver.simps) auto
    qed
  qed
qed

lemma clipContentsOk_removeOldestEntries:
  "clipContentsOk st \<Longrightarrow> clipContentsOk (removeOldestEntries s st)"
  using clipItems_removeWhileOver_subset [of s st]
  by (auto simp add: removeOldestEntries_def Let_def intro: clipContentsOk_subset)

lemma clipContentsOk_moveItemFirst:
  assumes "clipContentsOk st"
  shows "clipContentsOk (moveItemFirst s i st)"
proof (cases "i < length (clipItemsRadioGroup st)")
  case False
  with assms show ?thesis
    by (simp add: moveItemFirst_def Let_def)
next
  case True
  have "clipContentsOk (removeEntry s i st)"
    using clipItems_removeEntry_subset assms by (rule clipContentsOk_subset)
  then have "clipContentsOk (addEntry (entry (clipItemsRadioGroup st ! i))
      (currentlySelected (clipItemsRadioGroup st ! i)) (removeEntry s i st))"
    by (rule clipContentsOk_addEntry)
  with True show ?thesis
    by (simp add: moveItemFirst_def Let_def)
qed

lemma clipContentsOk_addOrPromote:
  assumes "clipContentsOk st"
  shows "clipContentsOk (addOrPromote s r st)"
proof -
  have sel: "\<And>i. clipContentsOk (selectMenuItem i st)"
    unfolding selectMenuItem_def using assms by (rule clipContentsOk_onMenuItemSelected)
  have mv: "\<And>i. clipContentsOk (moveItemFirst s i (selectMenuItem i st))"
    using sel by (rule clipContentsOk_moveItemFirst)
  have a: "clipContentsOk (addEntry r True (addToCache s r st))"
    using assms by (simp add: clipContentsOk_addEntry)
  have b: "clipContentsOk (addEntry r True (addToCache s r (removeOldestEntries s st)))"
    using assms by (simp add: clipContentsOk_addEntry clipContentsOk_removeOldestEntries)
  from sel mv a b show ?thesis
    by (simp add: addOrPromote_def Let_def split: option.split)
qed


lemma clipContentsOk_loadHistory:
  assumes "clipContentsOk st"
  shows "clipContentsOk (loadHistory h st)"
proof -
  have "clipContentsOk st \<Longrightarrow> clipContentsOk (foldl (\<lambda>acc e. addEntry e False acc) st h)" for st
    by (induction h arbitrary: st) (simp_all add: clipContentsOk_addEntry)
  with assms show ?thesis
    unfolding loadHistory_def selectMenuItem_def by (simp add: clipContentsOk_onMenuItemSelected)
qed

lemma clipContentsOk_switchWorkspace: "clipContentsOk (switchWorkspace s name st)"
proof -
  have "clipContentsOk (switchActivate (switchTarget name st) (switchPersist s st))"
    by (simp add: clipContentsOk_def switchActivate_def saveWorkspacesConfig_indicator_def
        switchPersist_def)
  then show ?thesis
    by (simp add: switchWorkspace_def switchLoad_def switchRetry_def Let_def clipContentsOk_loadHistory)
qed

lemma clipContentsOk_favoriteToggle:
  assumes "clipContentsOk st"
  shows "clipContentsOk (favoriteToggle s i st)"
proof (cases "i < length (clipItemsRadioGroup st)")
  case False
  with assms show ?thesis
    by (simp add: favoriteToggle_def Let_def)
next
  case True
  let ?items = "clipItemsRadioGroup st"
  let ?e = "entry (?items ! i)"
  let ?st1 = "st\<lparr>clipItemsRadioGroup :=
      ?items[i := (?items ! i)\<lparr>entry := ?e\<lparr>favorite := (if isFavorite ?e then False else True)\<rparr>\<rparr>]\<rparr>"
  have g: "\<And>e b. getStringValue (e\<lparr>favorite := b\<rparr>) = getStringValue e"
    by (simp add: getStringValue_def isImage_def)
  from assms True have "clipContents (?items ! i) = getStringValue ?e"
    by (simp add: clipContentsOk_def)
  with assms have "clipContentsOk ?st1"
    by (auto simp add: clipContentsOk_def g dest!: set_update_subset_insert [THEN subsetD])
  then have "clipContentsOk (moveItemFirst s i ?st1)"
    by (rule clipContentsOk_moveItemFirst)
  with True show ?thesis
    by (simp add: favoriteToggle_def Let_def)
qed

lemma clipContentsOk_emptyIndicator: "clipContentsOk emptyIndicator"
  by (simp add: clipContentsOk_def emptyIndicator_def)

lemma storedEntries_addOrPromote_found:
  "findIndex (\<lambda>e. equals e r) (storedEntries st) = Some i \<Longrightarrow>
   storedEntries (addOrPromote s r st) =
     (if \<not> favorite (storedEntries st ! i) \<and> MOVE_ITEM_FIRST s
      then take i (storedEntries st) @ drop (Suc i) (storedEntries st) @ [storedEntries st ! i]
      else storedEntries st)"
  by (simp add: storedEntries_addOrPromote)

lemma addOrPromote_fresh:
  "findIndex (\<lambda>menuItem. equals (entry menuItem) r) (clipItemsRadioGroup st) = None \<Longrightarrow>
   nonFavoriteCount st < MAX_REGISTRY_LENGTH s \<Longrightarrow>
   addOrPromote s r st = addEntry r True (addToCache s r st)"
  by (simp add: addOrPromote_def filter_not_isFavorite)

text \<open>
  Claim C6 as stated (for every history state, exactly one stored entry afterwards) does
  not hold: a history can hold the same text twice. The text entry whose payload is two
  byte order marks and \<open>a\<close> decodes to U+FEFF \<open>a\<close>, so it and the text \<open>a\<close> are different
  contents and both are stored in \<open>W1\<close>. The manifest keeps the first as the string
  U+FEFF \<open>a\<close>; after a switch to \<open>W2\<close> and back, \<open>read\<close> encodes that string to one byte
  order mark and \<open>a\<close>, which decodes to \<open>a\<close>. The history now holds two entries with the
  text \<open>a\<close>, and two captures of \<open>a\<close> leave both of them.
\<close>

theorem addOrPromote_twice_two_entries:
  "storedEntries
     (addOrPromote \<lparr>MAX_REGISTRY_LENGTH = 5, CACHE_ONLY_FAVORITE = False, MOVE_ITEM_FIRST = True, PRIVATEMODE = False\<rparr> (textEntry ''a'')
        (addOrPromote \<lparr>MAX_REGISTRY_LENGTH = 5, CACHE_ONLY_FAVORITE = False, MOVE_ITEM_FIRST = True, PRIVATEMODE = False\<rparr>
           \<lparr>mimetype = lit ''text/plain'', bytes = [0xEF, 0xBB, 0xBF, 0xEF, 0xBB, 0xBF, 0x61], favorite = False, imageHash = None\<rparr>
           emptyIndicator))
     = [\<lparr>mimetype = lit ''text/plain'', bytes = [0xEF, 0xBB, 0xBF, 0xEF, 0xBB, 0xBF, 0x61], favorite = False, imageHash = None\<rparr>,
        textEntry ''a''] \<and>
   storedEntries
     (switchWorkspace \<lparr>MAX_REGISTRY_LENGTH = 5, CACHE_ONLY_FAVORITE = False, MOVE_ITEM_FIRST = True, PRIVATEMODE = False\<rparr> (lit ''W1'')
        (switchWorkspace \<lparr>MAX_REGISTRY_LENGTH = 5, CACHE_ONLY_FAVORITE = False, MOVE_ITEM_FIRST = True, PRIVATEMODE = False\<rparr> (lit ''W2'')
           (addOrPromote \<lparr>MAX_REGISTRY_LENGTH = 5, CACHE_ONLY_FAVORITE = False, MOVE_ITEM_FIRST = True, PRIVATEMODE = False\<rparr> (textEntry ''a'')
              (addOrPromote \<lparr>MAX_REGISTRY_LENGTH = 5, CACHE_ONLY_FAVORITE = False, MOVE_ITEM_FIRST = True, PRIVATEMODE = False\<rparr>
                 \<lparr>mimetype = lit ''text/plain'', bytes = [0xEF, 0xBB, 0xBF, 0xEF, 0xBB, 0xBF, 0x61], favorite = False, imageHash = None\<rparr>
                 emptyIndicator))))
     = [\<lparr>mimetype = lit ''text/plain'', bytes = [0xEF, 0xBB, 0xBF, 0x61], favorite = False, imageHash = None\<rparr>,
        textEntry ''a''] \<and>
   length (filter (\<lambda>x. equals x (textEntry ''a''))
     (storedEntries
        (addOrPromote \<lparr>MAX_REGISTRY_LENGTH = 5, CACHE_ONLY_FAVORITE = False, MOVE_ITEM_FIRST = True, PRIVATEMODE = False\<rparr> (textEntry ''a'')
           (addOrPromote \<lparr>MAX_REGISTRY_LENGTH = 5, CACHE_ONLY_FAVORITE = False, MOVE_ITEM_FIRST = True, PRIVATEMODE = False\<rparr> (textEntry ''a'')
              (switchWorkspace \<lparr>MAX_REGISTRY_LENGTH = 5, CACHE_ONLY_FAVORITE = False, MOVE_ITEM_FIRST = True, PRIVATEMODE = False\<rparr> (lit ''W1'')
                 (switchWorkspace \<lparr>MAX_REGISTRY_LENGTH = 5, CACHE_ONLY_FAVORITE = False, MOVE_ITEM_FIRST = True, PRIVATEMODE = False\<rparr> (lit ''W2'')
                    (addOrPromote \<lparr>MAX_REGISTRY_LENGTH = 5, CACHE_ONLY_FAVORITE = False, MOVE_ITEM_FIRST = True, PRIVATEMODE = False\<rparr> (textEntry ''a'')
                       (addOrPromote \<lparr>MAX_REGISTRY_LENGTH = 5, CACHE_ONLY_FAVORITE = False, MOVE_ITEM_FIRST = True, PRIVATEMODE = False\<rparr>
                          \<lparr>mimetype = lit ''text/plain'', bytes = [0xEF, 0xBB, 0xBF, 0xEF, 0xBB, 0xBF, 0x61], favorite = False, imageHash = None\<rparr>
                          emptyIndicator)))))))) = 2"
proof -
  let ?s = "\<lparr>MAX_REGISTRY_LENGTH = 5, CACHE_ONLY_FAVORITE = False, MOVE_ITEM_FIRST = True, PRIVATEMODE = False\<rparr>"
  let ?bom = "\<lparr>mimetype = lit ''text/plain'', bytes = [0xEF, 0xBB, 0xBF, 0xEF, 0xBB, 0xBF, 0x61], favorite = False, imageHash = None\<rparr>"
  let ?bom1 = "\<lparr>mimetype = lit ''text/plain'', bytes = [0xEF, 0xBB, 0xBF, 0x61], favorite = False, imageHash = None\<rparr>"
  let ?a = "textEntry ''a''"
  let ?c1 = "addOrPromote ?s ?bom emptyIndicator"
  let ?base = "addOrPromote ?s ?a ?c1"
  let ?st = "switchWorkspace ?s (lit ''W1'') (switchWorkspace ?s (lit ''W2'') ?base)"
  have ga: "getStringValue ?a = [0x61]"
    by (simp add: getStringValue_def textEntry_def isImage_def startsWith_def lit_def
        utf8_decode_def classify_def strip_bom_def utf16_of_scalar_def)
  have gb: "getStringValue ?bom = [0xFEFF, 0x61]"
    by (simp add: getStringValue_def isImage_def startsWith_def lit_def
        utf8_decode_def classify_def strip_bom_def utf16_of_scalar_def)
  have gb1: "getStringValue ?bom1 = [0x61]"
    by (simp add: getStringValue_def isImage_def startsWith_def lit_def
        utf8_decode_def classify_def strip_bom_def utf16_of_scalar_def)
  have c1: "?c1 = addEntry ?bom True (addToCache ?s ?bom emptyIndicator)"
    by (rule capture_emptyIndicator)
  have items1: "clipItemsRadioGroup ?c1 =
      [\<lparr>entry = ?bom, clipContents = getStringValue ?bom, currentlySelected = True\<rparr>]"
    by (simp only: c1) (simp add: addEntry_def selectMenuItem_def onMenuItemSelected_def Let_def
        emptyIndicator_def gb)
  have e1: "storedEntries ?c1 = [?bom]"
    by (simp add: c1)
  have f0: "findIndex (\<lambda>menuItem. equals (entry menuItem) ?a) (clipItemsRadioGroup ?c1) = None"
    by (simp only: items1) (simp add: equals_def ga gb)
  have n0: "nonFavoriteCount ?c1 < MAX_REGISTRY_LENGTH ?s"
    by (simp only: nonFavoriteCount_def e1) simp
  have st0: "?base = addEntry ?a True (addToCache ?s ?a ?c1)"
    using f0 n0 by (rule addOrPromote_fresh)
  have es: "storedEntries ?base = [?bom, ?a]"
    by (simp add: st0 e1)
  have ws1: "workspaces ?c1 = [lit ''W1'', lit ''W2'']"
    by (subst c1) (simp add: addToCache_def emptyIndicator_def)
  have act1: "activeWorkspace ?c1 = Some (lit ''W1'')"
    by (subst c1) (simp add: addToCache_def emptyIndicator_def)
  have reg1: "registry ?c1 = registry_write emptyDisk [?bom] (Some (lit ''W1''))"
    by (subst c1) (simp add: registry_addToCache emptyIndicator_def storedEntries_def)
  have ws: "workspaces ?base = [lit ''W1'', lit ''W2'']"
    by (subst st0) (simp add: addToCache_def ws1)
  have act: "activeWorkspace ?base = Some (lit ''W1'')"
    by (subst st0) (simp add: addToCache_def act1)
  have reg: "registry ?base =
      registry_write (registry_write emptyDisk [?bom] (Some (lit ''W1''))) [?bom, ?a] (Some (lit ''W1''))"
    by (subst st0) (simp add: registry_addToCache e1 act1 reg1)
  have w1: "lit ''W1'' \<in> set (workspaces ?base)" and w2: "lit ''W2'' \<in> set (workspaces ?base)"
    by (simp_all add: ws)
  have wf: "\<forall>e \<in> set (storedEntries ?base). mimetype e \<noteq> []"
    by (simp only: es) (simp add: textEntry_def lit_def)
  have neq: "\<And>d. getWorkspaceDir d (Some (lit ''W2'')) \<noteq> getWorkspaceDir d (Some (lit ''W1''))"
    using plainName_W1_W2(2) plainName_W1_W2(1) by (rule getWorkspaceDir_plainName_distinct) (simp add: lit_def)
  have m2: "manifestHolds (registry ?base) (Some (lit ''W2'')) []"
    using manifestHolds_emptyDisk [of "Some (lit ''W2'')"]
    by (simp only: reg manifestHolds_other [OF neq])
  have pers: "persisted ?s ?base = [?bom, ?a]"
    by (simp only: persisted_def es) simp
  have "utf8_encode (utf8_decode [0xEF, 0xBB, 0xBF, 0xEF, 0xBB, 0xBF, 0x61]) = [0xEF, 0xBB, 0xBF, 0x61]"
    by (simp add: utf8_encode_def utf8_decode_def classify_def strip_bom_def utf16_of_scalar_def
        is_high_def is_low_def utf8_of_scalar_def)
  then have rb: "reread ?bom = ?bom1"
    by (simp add: reread_def isText_def isText_static_def isImage_def startsWith_def lit_def)
  have "is_ascii (bytes ?a)"
    by (simp add: is_ascii_def textEntry_def)
  then have "utf8_encode (utf8_decode (bytes ?a)) = bytes ?a"
    by (rule utf8_encode_decode_ascii)
  then have ra: "reread ?a = ?a"
    by (simp add: reread_def) (simp add: textEntry_def isImage_def startsWith_def lit_def)
  have returned: "storedEntries ?st = [?bom1, ?a]"
    using switch_there_and_back(2) [OF plainName_W1_W2 w1 w2 act wf m2, of ?s]
    by (simp only: pers list.map rb ra)
  have eqb: "equals ?bom1 ?a" and eqa: "equals ?a ?a"
    by (simp_all add: equals_def ga gb1)
  have nf: "\<not> favorite ?a"
    by (simp add: textEntry_def)
  have f1: "findIndex (\<lambda>e. equals e ?a) (storedEntries ?st) = Some 0"
    by (simp only: returned) (simp add: eqb)
  have first: "storedEntries (addOrPromote ?s ?a ?st) = [?a, ?bom1]"
    using storedEntries_addOrPromote_found [OF f1, of ?s] by (simp only: returned) simp
  have f2: "findIndex (\<lambda>e. equals e ?a) (storedEntries (addOrPromote ?s ?a ?st)) = Some 0"
    by (simp only: first) (simp add: eqa)
  have second: "storedEntries (addOrPromote ?s ?a (addOrPromote ?s ?a ?st)) = [?bom1, ?a]"
    using storedEntries_addOrPromote_found [OF f2, of ?s] by (simp only: first) (simp add: nf)
  show ?thesis
    by (simp only: es returned second) (simp add: eqa eqb)
qed


text \<open>
  Claim C6, amended. After two captures with the same text projection the history holds
  as many entries with that projection as before, and one when it held none: exactly
  one whenever it held at most one. The second capture inserts nothing: it finds the
  oldest entry with the projection, and the history is the same entries with that one
  moved to the newest position when it is not a favorite and \<open>MOVE_ITEM_FIRST\<close> is set,
  in the same order otherwise. Afterwards no item with another projection is marked as
  chosen, and an item with the projection is marked when the projection is not the
  empty string and the items hold the text of their entries.
\<close>

theorem addOrPromote_twice_one_entry:
  assumes "equals e1 e2"
  shows "length (filter (\<lambda>x. equals x e1) (storedEntries (addOrPromote s e2 (addOrPromote s e1 st)))) =
           max 1 (length (filter (\<lambda>x. equals x e1) (storedEntries st))) \<and>
         (length (filter (\<lambda>x. equals x e1) (storedEntries st)) \<le> 1 \<longrightarrow>
            length (filter (\<lambda>x. equals x e1) (storedEntries (addOrPromote s e2 (addOrPromote s e1 st)))) = 1) \<and>
         mset (storedEntries (addOrPromote s e2 (addOrPromote s e1 st))) =
           mset (storedEntries (addOrPromote s e1 st)) \<and>
         (\<exists>i. findIndex (\<lambda>x. equals x e2) (storedEntries (addOrPromote s e1 st)) = Some i \<and>
              storedEntries (addOrPromote s e2 (addOrPromote s e1 st)) =
                (if \<not> favorite (storedEntries (addOrPromote s e1 st) ! i) \<and> MOVE_ITEM_FIRST s
                 then take i (storedEntries (addOrPromote s e1 st)) @
                      drop (Suc i) (storedEntries (addOrPromote s e1 st)) @
                      [storedEntries (addOrPromote s e1 st) ! i]
                 else storedEntries (addOrPromote s e1 st))) \<and>
         selectedOnly (\<lambda>x. equals x e1) (addOrPromote s e2 (addOrPromote s e1 st)) \<and>
         (clipContentsOk st \<and> getStringValue e1 \<noteq> [] \<longrightarrow>
            (\<exists>m \<in> set (clipItemsRadioGroup (addOrPromote s e2 (addOrPromote s e1 st))).
               equals (entry m) e1 \<and> currentlySelected m))"
proof -
  let ?P = "\<lambda>x. equals x e1"
  let ?st1 = "addOrPromote s e1 st"
  let ?st2 = "addOrPromote s e2 ?st1"
  have eq1: "\<And>x. equals x e1 = ?P x"
    by simp
  from assms have eq2: "\<And>x. equals x e2 = ?P x"
    by (simp add: equals_def)
  then have fun2: "(\<lambda>x. equals x e2) = ?P"
    by (simp add: fun_eq_iff)
  have first: "length (filter ?P (storedEntries ?st1)) = max 1 (length (filter ?P (storedEntries st)))"
  proof (cases "length (filter ?P (storedEntries st)) = 0")
    case True
    have "length (filter ?P (storedEntries ?st1)) = 1"
      by (rule addOrPromote_new [of e1 ?P, OF eq1 True]) (simp add: equals_def)
    with True show ?thesis
      by simp
  next
    case False
    with addOrPromote_existing [of e1 ?P st s, OF eq1 False] show ?thesis
      by linarith
  qed
  then have ne: "length (filter ?P (storedEntries ?st1)) \<noteq> 0"
    by simp
  from addOrPromote_existing [of e2 ?P, OF eq2 ne] first
  have count: "length (filter ?P (storedEntries ?st2)) = max 1 (length (filter ?P (storedEntries st)))"
    by simp
  from findIndex_exists [OF ne] obtain i where "findIndex ?P (storedEntries ?st1) = Some i"
    by blast
  with fun2 have f: "findIndex (\<lambda>x. equals x e2) (storedEntries ?st1) = Some i"
    by simp
  then have lt: "i < length (storedEntries ?st1)"
    by (rule findIndex_Some_lt)
  note moved = storedEntries_addOrPromote_found [OF f, of s]
  from moved mset_move_last [OF lt] have same: "mset (storedEntries ?st2) = mset (storedEntries ?st1)"
    by (simp del: length_storedEntries)
  from f have f': "findIndex (\<lambda>menuItem. equals (entry menuItem) e2) (clipItemsRadioGroup ?st1) = Some i"
    by (simp add: storedEntries_def findIndex_map)
  from addOrPromote_existing_selectedOnly [OF f', of s]
  have only: "selectedOnly ?P ?st2"
    by (simp only: fun2)
  have sel: "\<exists>m \<in> set (clipItemsRadioGroup ?st2). equals (entry m) e1 \<and> currentlySelected m"
    if ok: "clipContentsOk st" and nonempty: "getStringValue e1 \<noteq> []"
  proof -
    from ok have "clipContentsOk ?st1"
      by (rule clipContentsOk_addOrPromote)
    moreover from nonempty assms have "getStringValue e2 \<noteq> []"
      by (simp add: equals_def)
    ultimately have "\<exists>m \<in> set (clipItemsRadioGroup ?st2). equals (entry m) e2 \<and> currentlySelected m"
      by (rule addOrPromote_existing_selected [OF f'])
    then show ?thesis
      by (simp only: eq2)
  qed
  from count same f moved only sel show ?thesis
    by (intro conjI impI exI [of _ i]) simp_all
qed

theorem addOrPromote_twice_one_entry_witness:
  "equals (textEntry ''a'') \<lparr>mimetype = lit ''text/html'', bytes = [0x61], favorite = False, imageHash = None\<rparr> \<and>
   length (filter (\<lambda>x. equals x (textEntry ''a'')) (storedEntries emptyIndicator)) \<le> 1 \<and>
   clipContentsOk emptyIndicator \<and> getStringValue (textEntry ''a'') \<noteq> [] \<and>
   length (filter (\<lambda>x. equals x (textEntry ''a''))
     (storedEntries (addOrPromote \<lparr>MAX_REGISTRY_LENGTH = 2, CACHE_ONLY_FAVORITE = False, MOVE_ITEM_FIRST = True, PRIVATEMODE = False\<rparr> \<lparr>mimetype = lit ''text/html'', bytes = [0x61], favorite = False, imageHash = None\<rparr> (addOrPromote \<lparr>MAX_REGISTRY_LENGTH = 2, CACHE_ONLY_FAVORITE = False, MOVE_ITEM_FIRST = True, PRIVATEMODE = False\<rparr> (textEntry ''a'') emptyIndicator)))) = 1 \<and>
   (\<exists>m \<in> set (clipItemsRadioGroup (addOrPromote \<lparr>MAX_REGISTRY_LENGTH = 2, CACHE_ONLY_FAVORITE = False, MOVE_ITEM_FIRST = True, PRIVATEMODE = False\<rparr> \<lparr>mimetype = lit ''text/html'', bytes = [0x61], favorite = False, imageHash = None\<rparr> (addOrPromote \<lparr>MAX_REGISTRY_LENGTH = 2, CACHE_ONLY_FAVORITE = False, MOVE_ITEM_FIRST = True, PRIVATEMODE = False\<rparr> (textEntry ''a'') emptyIndicator))).
      equals (entry m) (textEntry ''a'') \<and> currentlySelected m)"
proof -
  have g: "getStringValue (textEntry ''a'') = [0x61]"
    by (simp add: getStringValue_def textEntry_def isImage_def startsWith_def lit_def
        utf8_decode_def classify_def strip_bom_def utf16_of_scalar_def)
  have e: "equals (textEntry ''a'') \<lparr>mimetype = lit ''text/html'', bytes = [0x61], favorite = False, imageHash = None\<rparr>"
    by (simp add: equals_def g)
       (simp add: getStringValue_def isImage_def startsWith_def lit_def
        utf8_decode_def classify_def strip_bom_def utf16_of_scalar_def)
  have c: "length (filter (\<lambda>x. equals x (textEntry ''a'')) (storedEntries emptyIndicator)) \<le> 1"
    by simp
  have ok: "clipContentsOk emptyIndicator \<and> getStringValue (textEntry ''a'') \<noteq> []"
    by (simp add: clipContentsOk_def emptyIndicator_def g)
  note t = addOrPromote_twice_one_entry [OF e, of "\<lparr>MAX_REGISTRY_LENGTH = 2, CACHE_ONLY_FAVORITE = False, MOVE_ITEM_FIRST = True, PRIVATEMODE = False\<rparr>" emptyIndicator]
  from t [THEN conjunct2, THEN conjunct1, THEN mp, OF c]
    t [THEN conjunct2, THEN conjunct2, THEN conjunct2, THEN conjunct2, THEN conjunct2, THEN mp, OF ok]
    e c ok
  show ?thesis
    by blast
qed

section \<open>The bound that the history keeps\<close>

text \<open>
  \<open>_removeOldestEntries\<close> by itself brings the number of entries that are not
  favorites down to the history size. A capture calls it before the insertion and only
  when the count has reached the size, so what a capture keeps is the history size plus
  one.
\<close>

lemma removeWhileOver_bound:
  "nonFavoriteCount (removeWhileOver s st) \<le> MAX_REGISTRY_LENGTH s"
proof (induction s st rule: removeWhileOver.induct)
  case (1 s st)
  show ?case
  proof (cases "length (filter noFavorite (clipItemsRadioGroup st)) > MAX_REGISTRY_LENGTH s")
    case False
    then show ?thesis
      by (subst removeWhileOver.simps) (simp add: filter_noFavorite)
  next
    case True
    then have "length (filter noFavorite (clipItemsRadioGroup st)) \<noteq> 0"
      by linarith
    from findIndex_exists [OF this] obtain i
      where i: "findIndex noFavorite (clipItemsRadioGroup st) = Some i"
      by blast
    with True "1.IH" [OF True i] show ?thesis
      by (subst removeWhileOver.simps) simp
  qed
qed

lemma removeOldestEntries_bound:
  "0 < MAX_REGISTRY_LENGTH s \<Longrightarrow> nonFavoriteCount (removeOldestEntries s st) \<le> MAX_REGISTRY_LENGTH s"
  using removeWhileOver_bound [of s st]
  by (simp add: removeOldestEntries_def Let_def nonFavoriteCount_def)

lemma addOrPromote_count_bound:
  assumes "0 < MAX_REGISTRY_LENGTH s"
  shows "nonFavoriteCount (addOrPromote s r st) \<le> max (nonFavoriteCount st) (Suc (MAX_REGISTRY_LENGTH s))"
proof (cases "findIndex (\<lambda>e. equals e r) (storedEntries st)")
  case None
  from removeOldestEntries_bound [OF assms, of st] None assms show ?thesis
    by (auto simp add: storedEntries_addOrPromote nonFavoriteCount_def)
next
  case (Some i)
  then have lt: "i < length (storedEntries st)"
    by (rule findIndex_Some_lt)
  from Some length_filter_move_last [OF lt, of "\<lambda>e. \<not> favorite e"] show ?thesis
    by (auto simp add: storedEntries_addOrPromote nonFavoriteCount_def simp del: length_storedEntries)
qed

end
